theory Spec2Isabelle
  imports Complex_Main
begin

section \<open>JavaScript values\<close>

text \<open>
  The estimator of \<^verbatim>\<open>src/backend/src/server.js\<close> (lines 64 to 88) reads six
  properties of the parsed JSON body, checks them and answers with a status and a JSON
  object. Its numbers are IEEE 754 binary64 values. A Number is one of NaN, the two
  infinities, or a finite value, which is represented by the real number it denotes.
  The two zeros are identified: every zero the handler can produce is \<open>+0\<close> (a field
  that is \<open>-0\<close> fails the check \<open>v <= 0\<close>, and no operation of the handler yields
  \<open>-0\<close> from operands that are positive, \<open>+0\<close>, \<open>+Infinity\<close> or NaN), so a zero
  divisor is read as \<open>+0\<close>.
\<close>

datatype jsnum = NaN | PInf | NInf | Fin real

datatype jsval =
    JUndefined
  | JNull
  | JBool bool
  | JNum jsnum
  | JStr string
  | JArr "jsval list"
  | JObj "(string \<times> jsval) list"

text \<open>The operator \<^verbatim>\<open>typeof\<close>.\<close>

fun typeof :: "jsval \<Rightarrow> string" where
  "typeof JUndefined = ''undefined''"
| "typeof JNull = ''object''"
| "typeof (JBool _) = ''boolean''"
| "typeof (JNum _) = ''number''"
| "typeof (JStr _) = ''string''"
| "typeof (JArr _) = ''object''"
| "typeof (JObj _) = ''object''"

text \<open>
  The comparisons \<^verbatim>\<open><=\<close> and \<^verbatim>\<open><\<close> on Numbers: false whenever an operand is NaN.
\<close>

fun fle :: "jsnum \<Rightarrow> jsnum \<Rightarrow> bool" where
  "fle NaN _ = False"
| "fle _ NaN = False"
| "fle NInf _ = True"
| "fle _ PInf = True"
| "fle PInf _ = False"
| "fle _ NInf = False"
| "fle (Fin x) (Fin y) = (x \<le> y)"

fun flt :: "jsnum \<Rightarrow> jsnum \<Rightarrow> bool" where
  "flt NaN _ = False"
| "flt _ NaN = False"
| "flt PInf _ = False"
| "flt _ NInf = False"
| "flt NInf _ = True"
| "flt _ PInf = True"
| "flt (Fin x) (Fin y) = (x < y)"

section \<open>binary64 arithmetic\<close>

text \<open>
  Rounding to nearest, ties to even. A finite binary64 value is \<open>m * 2^e\<close> with
  \<open>\<bar>m\<bar> < 2^53\<close> and \<open>-1074 \<le> e \<le> 971\<close>. For a real \<open>x\<close> the exponent of its last
  place is \<open>quantum_exp x\<close> (\<open>-1074\<close> throughout the subnormal range); \<open>nearest x\<close> is
  the multiple of that power of two nearest to \<open>x\<close>, and a result of magnitude \<open>2^1024\<close>
  or more overflows to an infinity.
\<close>

definition round_even :: "real \<Rightarrow> int" where
  "round_even x =
     (let f = \<lfloor>x\<rfloor>; d = x - of_int f
      in if d < 1/2 then f else if 1/2 < d then f + 1 else if even f then f else f + 1)"

definition quantum_exp :: "real \<Rightarrow> int" where
  "quantum_exp x = max (- 1074) (\<lfloor>log 2 \<bar>x\<bar>\<rfloor> - 52)"

definition nearest :: "real \<Rightarrow> real" where
  "nearest x = of_int (round_even (x / 2 powi quantum_exp x)) * 2 powi quantum_exp x"

definition overflow_threshold :: real where
  "overflow_threshold = 2 ^ 1024"

definition rnd :: "real \<Rightarrow> jsnum" where
  "rnd x =
     (if x = 0 then Fin 0
      else if overflow_threshold \<le> \<bar>nearest x\<bar> then (if 0 < x then PInf else NInf)
      else Fin (nearest x))"

text \<open>The set of finite binary64 values.\<close>

definition is_double :: "real \<Rightarrow> bool" where
  "is_double x = (\<exists>m e. x = of_int m * 2 powi e \<and> \<bar>m\<bar> < 2 ^ 53 \<and> - 1074 \<le> e \<and> e \<le> 971)"

text \<open>The smallest positive binary64 value, written \<^verbatim>\<open>5e-324\<close> in JavaScript.\<close>

definition min_subnormal :: real where
  "min_subnormal = 2 powi (- 1074)"

text \<open>The operators \<^verbatim>\<open>/\<close>, \<^verbatim>\<open>-\<close> and \<^verbatim>\<open>*\<close>.\<close>

fun fdiv :: "jsnum \<Rightarrow> jsnum \<Rightarrow> jsnum" where
  "fdiv NaN _ = NaN"
| "fdiv _ NaN = NaN"
| "fdiv PInf PInf = NaN"
| "fdiv PInf NInf = NaN"
| "fdiv NInf PInf = NaN"
| "fdiv NInf NInf = NaN"
| "fdiv PInf (Fin y) = (if 0 \<le> y then PInf else NInf)"
| "fdiv NInf (Fin y) = (if 0 \<le> y then NInf else PInf)"
| "fdiv (Fin x) PInf = Fin 0"
| "fdiv (Fin x) NInf = Fin 0"
| "fdiv (Fin x) (Fin y) =
     (if y = 0 then (if x = 0 then NaN else if 0 < x then PInf else NInf)
      else rnd (x / y))"

fun fsub :: "jsnum \<Rightarrow> jsnum \<Rightarrow> jsnum" where
  "fsub NaN _ = NaN"
| "fsub _ NaN = NaN"
| "fsub PInf PInf = NaN"
| "fsub NInf NInf = NaN"
| "fsub PInf _ = PInf"
| "fsub NInf _ = NInf"
| "fsub (Fin x) PInf = NInf"
| "fsub (Fin x) NInf = PInf"
| "fsub (Fin x) (Fin y) = rnd (x - y)"

fun fmul :: "jsnum \<Rightarrow> jsnum \<Rightarrow> jsnum" where
  "fmul NaN _ = NaN"
| "fmul _ NaN = NaN"
| "fmul PInf PInf = PInf"
| "fmul PInf NInf = NInf"
| "fmul NInf PInf = NInf"
| "fmul NInf NInf = PInf"
| "fmul PInf (Fin y) = (if y = 0 then NaN else if 0 < y then PInf else NInf)"
| "fmul NInf (Fin y) = (if y = 0 then NaN else if 0 < y then NInf else PInf)"
| "fmul (Fin x) PInf = (if x = 0 then NaN else if 0 < x then PInf else NInf)"
| "fmul (Fin x) NInf = (if x = 0 then NaN else if 0 < x then NInf else PInf)"
| "fmul (Fin x) (Fin y) = rnd (x * y)"

text \<open>
  \<^verbatim>\<open>Math.pow(base, exponent)\<close>, following the steps of \<open>Number::exponentiate\<close> in
  ECMA-262. For a finite nonzero base and a finite nonzero exponent the standard asks
  only for an implementation-approximated result, so that case is the parameter
  \<open>approx\<close>; every other case is fixed by the standard.
\<close>

definition odd_integer :: "real \<Rightarrow> bool" where
  "odd_integer y = (y = of_int \<lfloor>y\<rfloor> \<and> odd \<lfloor>y\<rfloor>)"

fun Math_pow :: "(real \<Rightarrow> real \<Rightarrow> jsnum) \<Rightarrow> jsnum \<Rightarrow> jsnum \<Rightarrow> jsnum" where
  "Math_pow approx _ NaN = NaN"
| "Math_pow approx NaN (Fin y) = (if y = 0 then Fin 1 else NaN)"
| "Math_pow approx NaN _ = NaN"
| "Math_pow approx PInf PInf = PInf"
| "Math_pow approx PInf NInf = Fin 0"
| "Math_pow approx PInf (Fin y) = (if y = 0 then Fin 1 else if 0 < y then PInf else Fin 0)"
| "Math_pow approx NInf PInf = PInf"
| "Math_pow approx NInf NInf = Fin 0"
| "Math_pow approx NInf (Fin y) =
     (if y = 0 then Fin 1
      else if 0 < y then (if odd_integer y then NInf else PInf)
      else Fin 0)"
| "Math_pow approx (Fin x) PInf =
     (if x = 0 then Fin 0
      else if 1 < \<bar>x\<bar> then PInf else if \<bar>x\<bar> = 1 then NaN else Fin 0)"
| "Math_pow approx (Fin x) NInf =
     (if x = 0 then PInf
      else if 1 < \<bar>x\<bar> then Fin 0 else if \<bar>x\<bar> = 1 then NaN else PInf)"
| "Math_pow approx (Fin x) (Fin y) =
     (if y = 0 then Fin 1
      else if x = 0 then (if 0 < y then Fin 0 else PInf)
      else if x < 0 \<and> y \<noteq> of_int \<lfloor>y\<rfloor> then NaN
      else approx x y)"

text \<open>
  The correctly rounded power, one admissible choice of the implementation-approximated
  case.
\<close>

definition pow_rn :: "real \<Rightarrow> real \<Rightarrow> jsnum" where
  "pow_rn x y =
     rnd (if 0 < x then x powr y else (if even \<lfloor>y\<rfloor> then 1 else - 1) * (\<bar>x\<bar> powr y))"

text \<open>
  \<^verbatim>\<open>Number(x.toFixed(f))\<close>. \<^verbatim>\<open>toFixed\<close> prints NaN and the infinities by name; a
  magnitude of \<open>10^21\<close> or more is printed by \<open>ToString\<close>, which reads back as the same
  Number; otherwise the digits are those of the integer \<open>n\<close> for which \<open>n / 10^f\<close> is
  closest to the magnitude of \<open>x\<close>, the larger \<open>n\<close> on a tie, with the sign of \<open>x\<close>.
  \<^verbatim>\<open>Number\<close> reads the decimal string back as the nearest binary64 value.
\<close>

definition toFixed_limit :: real where
  "toFixed_limit = 10 ^ 21"

definition Number_toFixed :: "nat \<Rightarrow> jsnum \<Rightarrow> jsnum" where
  "Number_toFixed f x =
     (case x of
        NaN \<Rightarrow> NaN
      | PInf \<Rightarrow> PInf
      | NInf \<Rightarrow> NInf
      | Fin r \<Rightarrow>
          if toFixed_limit \<le> \<bar>r\<bar> then Fin r
          else rnd (sgn r * of_int \<lfloor>\<bar>r\<bar> * 10 ^ f + 1/2\<rfloor> / 10 ^ f))"

text \<open>
  \<^verbatim>\<open>Math.round\<close>: the closest integer, the one nearer to \<open>+Infinity\<close> on a tie.
\<close>

definition Math_round :: "jsnum \<Rightarrow> jsnum" where
  "Math_round x =
     (case x of
        NaN \<Rightarrow> NaN
      | PInf \<Rightarrow> PInf
      | NInf \<Rightarrow> NInf
      | Fin r \<Rightarrow> Fin (of_int \<lfloor>r + 1/2\<rfloor>))"

section \<open>The estimator\<close>

text \<open>
  A response is what \<^verbatim>\<open>res.status(..).json(..)\<close> is given: the status (200 when
  \<^verbatim>\<open>res.json\<close> is called alone) and the properties of the object, in the order of the
  object literal. (On the wire \<^verbatim>\<open>JSON.stringify\<close> writes NaN and the infinities as
  \<^verbatim>\<open>null\<close>.)
\<close>

record response =
  status :: nat
  body :: "(string \<times> jsval) list"

text \<open>
  Reading a property of \<^verbatim>\<open>req.body\<close> by destructuring. \<^verbatim>\<open>undefined\<close> and
  \<^verbatim>\<open>null\<close> cannot be destructured: a TypeError is thrown, which the handler's
  \<^verbatim>\<open>catch\<close> turns into status 500 with the error's message (V8's wording here).
  An object gives the value stored under the key, or \<^verbatim>\<open>undefined\<close>; none of the six
  names is a property of an array or of a primitive. A \<open>JObj\<close> lists the properties of a
  parsed object, so its keys are distinct.
\<close>

definition TypeError_message :: "jsval \<Rightarrow> string" where
  "TypeError_message v =
     ''Cannot destructure property 'T_min' of 'req.body' as it is ''
       @ (if v = JNull then ''null'' else ''undefined'') @ ''.''"

fun get_prop :: "jsval \<Rightarrow> string \<Rightarrow> jsval" where
  "get_prop (JObj kvs) k = (case map_of kvs k of None \<Rightarrow> JUndefined | Some v \<Rightarrow> v)"
| "get_prop _ k = JUndefined"

text \<open>The Number inside a value whose \<^verbatim>\<open>typeof\<close> is \<open>number\<close>.\<close>

fun num_of :: "jsval \<Rightarrow> jsnum" where
  "num_of (JNum x) = x"
| "num_of _ = NaN"

text \<open>
  The callback of \<^verbatim>\<open>some\<close>: \<^verbatim>\<open>typeof v !== "number" || v <= 0\<close>. The right
  operand is evaluated only for a Number.
\<close>

definition not_positive :: "jsval \<Rightarrow> bool" where
  "not_positive v = (if typeof v \<noteq> ''number'' then True else fle (num_of v) (Fin 0))"

text \<open>
  The handler of \<^verbatim>\<open>POST /api/traffic/estimate\<close>. \<open>approx\<close> is the host's
  implementation-approximated case of \<^verbatim>\<open>Math.pow\<close>.
\<close>

definition estimate :: "(real \<Rightarrow> real \<Rightarrow> jsnum) \<Rightarrow> jsval \<Rightarrow> response" where
  "estimate approx req_body =
     (if req_body = JUndefined \<or> req_body = JNull
      then \<lparr>status = 500, body = [(''error'', JStr (TypeError_message req_body))]\<rparr>
      else
        let T_min = get_prop req_body ''T_min'';
            Tff_min = get_prop req_body ''Tff_min'';
            L_km = get_prop req_body ''L_km'';
            qpc = get_prop req_body ''qpc'';
            alpha = get_prop req_body ''alpha'';
            beta = get_prop req_body ''beta''
        in
          if list_ex not_positive [T_min, Tff_min, L_km, qpc, alpha, beta]
          then \<lparr>status = 400,
                body = [(''error'', JStr ''All fields must be positive numbers.'')]\<rparr>
          else if fle (num_of T_min) (num_of Tff_min)
          then \<lparr>status = 200,
                body = [(''q_veh_per_h'', JNum (Fin 0)), (''N_veh'', JNum (Fin 0)),
                        (''note'', JStr ''Free flow or better than free flow.'')]\<rparr>
          else
            let T_h = fdiv (num_of T_min) (Fin 60);
                Tff_h = fdiv (num_of Tff_min) (Fin 60);
                Tratio = fdiv T_h Tff_h;
                base = fdiv (fsub Tratio (Fin 1)) (num_of alpha)
            in
              if flt base (Fin 0)
              then \<lparr>status = 400,
                    body = [(''error'', JStr ''Invalid base value, check parameters.'')]\<rparr>
              else
                let q = fmul (num_of qpc) (Math_pow approx base (fdiv (Fin 1) (num_of beta)));
                    N = fmul q T_h
                in \<lparr>status = 200,
                    body = [(''q_veh_per_h'', JNum (Number_toFixed 2 q)),
                            (''N_veh'', JNum (Math_round N)),
                            (''Tratio'', JNum (Number_toFixed 3 Tratio))]\<rparr>)"

section \<open>Vocabulary of the claims\<close>

text \<open>
  The six values the handler reads from a body, in the order of the destructuring, and a
  body that holds exactly six Numbers.
\<close>

definition fields :: "jsval \<Rightarrow> jsval list" where
  "fields b = map (get_prop b) [''T_min'', ''Tff_min'', ''L_km'', ''qpc'', ''alpha'', ''beta'']"

definition request :: "jsnum \<Rightarrow> jsnum \<Rightarrow> jsnum \<Rightarrow> jsnum \<Rightarrow> jsnum \<Rightarrow> jsnum \<Rightarrow> jsval" where
  "request T_min Tff_min L_km qpc alpha beta =
     JObj [(''T_min'', JNum T_min), (''Tff_min'', JNum Tff_min), (''L_km'', JNum L_km),
           (''qpc'', JNum qpc), (''alpha'', JNum alpha), (''beta'', JNum beta)]"

text \<open>
  The quantities of the specification: the travel times in hours, \<open>Tratio\<close>, \<open>base\<close> and
  the flow \<open>qpc * base^(1/beta)\<close>, each in binary64 arithmetic as the handler computes
  it.
\<close>

definition hours :: "jsnum \<Rightarrow> jsnum" where
  "hours t = fdiv t (Fin 60)"

definition travel_time_ratio :: "jsnum \<Rightarrow> jsnum \<Rightarrow> jsnum" where
  "travel_time_ratio T_min Tff_min = fdiv (hours T_min) (hours Tff_min)"

definition bpr_base :: "jsnum \<Rightarrow> jsnum \<Rightarrow> jsnum \<Rightarrow> jsnum" where
  "bpr_base T_min Tff_min alpha = fdiv (fsub (travel_time_ratio T_min Tff_min) (Fin 1)) alpha"

definition bpr_flow ::
  "(real \<Rightarrow> real \<Rightarrow> jsnum) \<Rightarrow> jsnum \<Rightarrow> jsnum \<Rightarrow> jsnum \<Rightarrow> jsnum \<Rightarrow> jsnum \<Rightarrow> jsnum" where
  "bpr_flow approx T_min Tff_min qpc alpha beta =
     fmul qpc (Math_pow approx (bpr_base T_min Tff_min alpha) (fdiv (Fin 1) beta))"

text \<open>The four responses the handler can send after reading the fields.\<close>

definition invalid_input :: response where
  "invalid_input =
     \<lparr>status = 400, body = [(''error'', JStr ''All fields must be positive numbers.'')]\<rparr>"

definition invalid_base :: response where
  "invalid_base =
     \<lparr>status = 400, body = [(''error'', JStr ''Invalid base value, check parameters.'')]\<rparr>"

definition free_flow :: response where
  "free_flow =
     \<lparr>status = 200,
      body = [(''q_veh_per_h'', JNum (Fin 0)), (''N_veh'', JNum (Fin 0)),
              (''note'', JStr ''Free flow or better than free flow.'')]\<rparr>"

definition computed :: "jsnum \<Rightarrow> jsnum \<Rightarrow> jsnum \<Rightarrow> response" where
  "computed q N Tratio =
     \<lparr>status = 200,
      body = [(''q_veh_per_h'', JNum (Number_toFixed 2 q)), (''N_veh'', JNum (Math_round N)),
              (''Tratio'', JNum (Number_toFixed 3 Tratio))]\<rparr>"

text \<open>
  Scenario 2 of the specification. The Number written \<^verbatim>\<open>0.15\<close> is the binary64 value
  nearest to it; \<open>scenario_2_base\<close> is the value of \<open>base\<close> the handler reaches.
\<close>

definition double_0_15 :: real where
  "double_0_15 = 5404319552844595 / 2 ^ 55"

definition scenario_2 :: jsval where
  "scenario_2 = request (Fin 60) (Fin 30) (Fin 5) (Fin 1000) (Fin double_0_15) (Fin 4)"

definition scenario_2_base :: real where
  "scenario_2_base = 7505999378950827 / 2 ^ 50"



section \<open>The handler within the server\<close>




section \<open>Rounding: basic facts\<close>

lemma round_even_of_int: "round_even (of_int n) = n"
  by (simp add: round_even_def)

lemma round_even_lower: "x - 1/2 \<le> of_int (round_even x)"
  unfolding round_even_def Let_def by (simp; linarith)

lemma round_even_upper: "of_int (round_even x) \<le> x + 1/2"
  unfolding round_even_def Let_def by (simp; linarith)

lemma round_even_mono:
  assumes "x \<le> y"
  shows "round_even x \<le> round_even y"
proof (cases "\<lfloor>x\<rfloor> = \<lfloor>y\<rfloor>")
  case True
  with assms show ?thesis
    unfolding round_even_def Let_def by auto
next
  case False
  with assms have lt: "\<lfloor>x\<rfloor> + 1 \<le> \<lfloor>y\<rfloor>"
    using floor_mono [of x y] by linarith
  have "round_even x \<le> \<lfloor>x\<rfloor> + 1"
    unfolding round_even_def Let_def by simp
  moreover have "\<lfloor>y\<rfloor> \<le> round_even y"
    unfolding round_even_def Let_def by simp
  ultimately show ?thesis using lt by linarith
qed

lemma round_even_ge: "of_int n \<le> x \<Longrightarrow> n \<le> round_even x"
  using round_even_mono [of "of_int n" x] by (simp add: round_even_of_int)

lemma round_even_le: "x \<le> of_int n \<Longrightarrow> round_even x \<le> n"
  using round_even_mono [of x "of_int n"] by (simp add: round_even_of_int)

lemma floor_minus_nonint: "x \<noteq> of_int \<lfloor>x\<rfloor> \<Longrightarrow> \<lfloor>- x\<rfloor> = - \<lfloor>x\<rfloor> - 1"
  by (rule floor_unique) (simp; linarith)+

lemma round_even_minus: "round_even (- x) = - round_even x"
proof (cases "x = of_int \<lfloor>x\<rfloor>")
  case True
  obtain n where n: "x = of_int n" using True ..
  have "round_even (- of_int n) = - n"
    using round_even_of_int [of "- n"] by simp
  then show ?thesis by (simp add: n round_even_of_int)
next
  case False
  have c: "\<lfloor>- x\<rfloor> = - \<lfloor>x\<rfloor> - 1"
    using False by (rule floor_minus_nonint)
  show ?thesis
    unfolding round_even_def Let_def c by auto
qed

lemma quantum_exp_ge: "- 1074 \<le> quantum_exp x"
  by (simp add: quantum_exp_def)

lemma quantum_exp_minus: "quantum_exp (- x) = quantum_exp x"
  by (simp add: quantum_exp_def)

lemma two_powr_int: "(2::real) powr real_of_int k = 2 powi k"
  by (simp add: powr_real_of_int')

lemma floor_log2_bounds:
  assumes "x \<noteq> 0"
  shows "2 powi \<lfloor>log 2 \<bar>x\<bar>\<rfloor> \<le> \<bar>x\<bar>" and "\<bar>x\<bar> < 2 powi (\<lfloor>log 2 \<bar>x\<bar>\<rfloor> + 1)"
proof -
  have pos: "0 < \<bar>x\<bar>" using assms by simp
  have "2 powi \<lfloor>log 2 \<bar>x\<bar>\<rfloor> \<le> \<bar>x\<bar> \<and> \<bar>x\<bar> < 2 powi (\<lfloor>log 2 \<bar>x\<bar>\<rfloor> + 1)"
    using floor_log_eq_powr_iff [OF pos, of 2 "\<lfloor>log 2 \<bar>x\<bar>\<rfloor>", unfolded two_powr_int] by simp
  then show "2 powi \<lfloor>log 2 \<bar>x\<bar>\<rfloor> \<le> \<bar>x\<bar>" and "\<bar>x\<bar> < 2 powi (\<lfloor>log 2 \<bar>x\<bar>\<rfloor> + 1)"
    by simp_all
qed

lemma quantum_exp_upper:
  assumes "x \<noteq> 0"
  shows "\<bar>x\<bar> < 2 powi (quantum_exp x + 53)"
proof -
  have "\<lfloor>log 2 \<bar>x\<bar>\<rfloor> + 1 \<le> quantum_exp x + 53"
    by (simp add: quantum_exp_def)
  then have "(2::real) powi (\<lfloor>log 2 \<bar>x\<bar>\<rfloor> + 1) \<le> 2 powi (quantum_exp x + 53)"
    by (intro power_int_increasing) simp_all
  with floor_log2_bounds(2) [OF assms] show ?thesis by linarith
qed

lemma quantum_exp_lower:
  assumes "x \<noteq> 0" and "- 1074 < quantum_exp x"
  shows "2 powi (quantum_exp x + 52) \<le> \<bar>x\<bar>"
proof -
  have "quantum_exp x + 52 = \<lfloor>log 2 \<bar>x\<bar>\<rfloor>"
    using assms(2) by (simp add: quantum_exp_def max_def split: if_splits)
  with floor_log2_bounds(1) [OF assms(1)] show ?thesis by simp
qed

lemma quantum_exp_mono:
  assumes "0 < x" and "x \<le> y"
  shows "quantum_exp x \<le> quantum_exp y"
proof -
  have "log 2 \<bar>x\<bar> \<le> log 2 \<bar>y\<bar>" using assms by simp
  then have "\<lfloor>log 2 \<bar>x\<bar>\<rfloor> \<le> \<lfloor>log 2 \<bar>y\<bar>\<rfloor>" by (rule floor_mono)
  then show ?thesis by (simp add: quantum_exp_def)
qed

lemma quantum_exp_eq:
  assumes "2 powi (e + 52) \<le> \<bar>x\<bar>" and "\<bar>x\<bar> < 2 powi (e + 53)" and "- 1074 \<le> e"
  shows "quantum_exp x = e"
proof -
  have pos: "0 < \<bar>x\<bar>"
    using assms(1) by (smt (verit) zero_less_power_int)
  have "\<lfloor>log 2 \<bar>x\<bar>\<rfloor> = e + 52"
    using floor_log_eq_powr_iff [OF pos, of 2 "e + 52", unfolded two_powr_int] assms
    by (simp add: add.commute add.left_commute)
  then show ?thesis using assms(3) by (simp add: quantum_exp_def)
qed

lemma quantum_exp_subnormal:
  assumes "x \<noteq> 0" and "\<bar>x\<bar> < 2 powi (- 1022)"
  shows "quantum_exp x = - 1074"
proof (rule ccontr)
  assume "quantum_exp x \<noteq> - 1074"
  then have gt: "- 1074 < quantum_exp x" using quantum_exp_ge [of x] by linarith
  then have "(2::real) powi (- 1022) \<le> 2 powi (quantum_exp x + 52)"
    by (intro power_int_increasing) simp_all
  with quantum_exp_lower [OF assms(1) gt] assms(2) show False by linarith
qed

lemma nearest_minus: "nearest (- x) = - nearest x"
  by (simp add: nearest_def quantum_exp_minus round_even_minus)

lemma nearest_zero: "nearest 0 = 0"
  by (simp add: nearest_def round_even_def)

lemma nearest_nonneg:
  assumes "0 \<le> x"
  shows "0 \<le> nearest x"
proof -
  have "of_int 0 \<le> x / 2 powi quantum_exp x" using assms by simp
  then have "0 \<le> round_even (x / 2 powi quantum_exp x)" by (rule round_even_ge)
  then show ?thesis by (simp add: nearest_def)
qed

text \<open>An integer below the scaled argument stays below the result.\<close>

lemma nearest_ge:
  assumes "of_int n * 2 powi quantum_exp x \<le> x"
  shows "of_int n * 2 powi quantum_exp x \<le> nearest x"
proof -
  have "of_int n \<le> x / 2 powi quantum_exp x"
    using assms by (simp add: pos_le_divide_eq)
  then have "n \<le> round_even (x / 2 powi quantum_exp x)" by (rule round_even_ge)
  then show ?thesis by (simp add: nearest_def)
qed

lemma nearest_le:
  assumes "x \<le> of_int n * 2 powi quantum_exp x"
  shows "nearest x \<le> of_int n * 2 powi quantum_exp x"
proof -
  have "x / 2 powi quantum_exp x \<le> of_int n"
    using assms by (simp add: pos_divide_le_eq)
  then have "round_even (x / 2 powi quantum_exp x) \<le> n" by (rule round_even_le)
  then show ?thesis by (simp add: nearest_def)
qed

lemma pow2_shift: "(2::real) ^ k * 2 powi e = 2 powi (e + int k)"
  by (simp add: power_int_add)

lemma nearest_pos_mono:
  assumes "0 < x" and "x \<le> y"
  shows "nearest x \<le> nearest y"
proof (cases "quantum_exp x = quantum_exp y")
  case True
  have "x / 2 powi quantum_exp y \<le> y / 2 powi quantum_exp y"
    using assms(2) by (simp add: divide_right_mono)
  then have "round_even (x / 2 powi quantum_exp y) \<le> round_even (y / 2 powi quantum_exp y)"
    by (rule round_even_mono)
  then show ?thesis by (simp add: nearest_def True)
next
  case False
  with quantum_exp_mono [OF assms] have lt: "quantum_exp x < quantum_exp y" by simp
  have yne: "y \<noteq> 0" and xne: "x \<noteq> 0" using assms by auto
  have "- 1074 < quantum_exp y" using lt quantum_exp_ge [of x] by linarith
  then have low: "2 powi (quantum_exp y + 52) \<le> y"
    using quantum_exp_lower [OF yne] assms by simp
  have "of_int (2 ^ 52) * 2 powi quantum_exp y \<le> y"
    using low pow2_shift [of 52 "quantum_exp y"] by simp
  then have "of_int (2 ^ 52) * 2 powi quantum_exp y \<le> nearest y" by (rule nearest_ge)
  then have ylow: "2 powi (quantum_exp y + 52) \<le> nearest y"
    using pow2_shift [of 52 "quantum_exp y"] by simp
  have "x < 2 powi (quantum_exp x + 53)"
    using quantum_exp_upper [OF xne] assms(1) by simp
  then have "x \<le> of_int (2 ^ 53) * 2 powi quantum_exp x"
    using pow2_shift [of 53 "quantum_exp x"] by simp
  then have "nearest x \<le> of_int (2 ^ 53) * 2 powi quantum_exp x" by (rule nearest_le)
  then have xup: "nearest x \<le> 2 powi (quantum_exp x + 53)"
    using pow2_shift [of 53 "quantum_exp x"] by simp
  have "(2::real) powi (quantum_exp x + 53) \<le> 2 powi (quantum_exp y + 52)"
    using lt by (intro power_int_increasing) simp_all
  with xup ylow show ?thesis by linarith
qed

lemma nearest_mono:
  assumes "x \<le> y"
  shows "nearest x \<le> nearest y"
proof -
  consider "0 < x" | "x \<le> 0" "0 \<le> y" | "y < 0" by linarith
  then show ?thesis
  proof cases
    case 1
    then show ?thesis using assms by (rule nearest_pos_mono)
  next
    case 2
    have "nearest x \<le> 0"
      using nearest_nonneg [of "- x"] 2(1) by (simp add: nearest_minus)
    with nearest_nonneg [OF 2(2)] show ?thesis by linarith
  next
    case 3
    have "nearest (- y) \<le> nearest (- x)"
      using 3 assms by (intro nearest_pos_mono) simp_all
    then show ?thesis by (simp add: nearest_minus)
  qed
qed

lemma nearest_double:
  assumes "\<bar>m\<bar> < 2 ^ 53" and "- 1074 \<le> e"
  shows "nearest (of_int m * 2 powi e) = of_int m * 2 powi e"
proof (cases "m = 0")
  case True
  then show ?thesis by (simp add: nearest_zero)
next
  case False
  define x :: real where "x = of_int m * 2 powi e"
  have xne: "x \<noteq> 0" using False by (simp add: x_def)
  have absx: "\<bar>x\<bar> = of_int \<bar>m\<bar> * 2 powi e" by (simp add: x_def abs_mult)
  have "of_int \<bar>m\<bar> < (2::real) ^ 53"
    using assms(1) by simp
  then have "\<bar>x\<bar> < 2 ^ 53 * 2 powi e"
    unfolding absx by (intro mult_strict_right_mono) simp_all
  then have up: "\<bar>x\<bar> < 2 powi (e + 53)" using pow2_shift [of 53 e] by simp
  have qle: "quantum_exp x \<le> e"
  proof (rule ccontr)
    assume "\<not> quantum_exp x \<le> e"
    then have gt: "e < quantum_exp x" by simp
    then have "- 1074 < quantum_exp x" using assms(2) by linarith
    then have "2 powi (quantum_exp x + 52) \<le> \<bar>x\<bar>" by (rule quantum_exp_lower [OF xne])
    moreover have "(2::real) powi (e + 53) \<le> 2 powi (quantum_exp x + 52)"
      using gt by (intro power_int_increasing) simp_all
    ultimately show False using up by linarith
  qed
  define q where "q = quantum_exp x"
  define k where "k = nat (e - q)"
  have e: "e = q + int k" using qle by (simp add: k_def q_def)
  have split: "(2::real) powi e = 2 ^ k * 2 powi q"
    unfolding e by (simp add: pow2_shift)
  have xq: "x = of_int (m * 2 ^ k) * 2 powi q"
    unfolding x_def split by simp
  then have "x / 2 powi q = of_int (m * 2 ^ k)" by simp
  then have "round_even (x / 2 powi q) = m * 2 ^ k"
    by (simp only: round_even_of_int)
  then have "nearest x = of_int (m * 2 ^ k) * 2 powi q"
    by (simp only: nearest_def q_def)
  with xq have "nearest x = x" by simp
  then show ?thesis by (simp only: x_def)
qed

lemma nearest_one: "nearest 1 = 1"
  using nearest_double [of 1 0] by simp

lemma overflow_threshold_gt_one: "1 < overflow_threshold"
  unfolding overflow_threshold_def by (rule one_less_power) simp_all

lemma overflow_threshold_ge: "k \<le> 1024 \<Longrightarrow> 2 ^ k \<le> overflow_threshold"
  unfolding overflow_threshold_def by (rule power_increasing) simp_all

lemma rnd_alt:
  "rnd x = (if overflow_threshold \<le> nearest x then PInf
            else if nearest x \<le> - overflow_threshold then NInf else Fin (nearest x))"
proof -
  have pos: "0 < overflow_threshold" using overflow_threshold_gt_one by linarith
  consider "x = 0" | "0 < x" | "x < 0" by linarith
  then show ?thesis
  proof cases
    case 1
    then show ?thesis using pos by (simp add: rnd_def nearest_zero not_le)
  next
    case 2
    then have "0 \<le> nearest x" by (intro nearest_nonneg) simp
    with 2 pos show ?thesis by (simp add: rnd_def abs_if)
  next
    case 3
    then have "0 \<le> nearest (- x)" by (intro nearest_nonneg) simp
    then have "nearest x \<le> 0" by (simp add: nearest_minus)
    with 3 pos show ?thesis by (simp add: rnd_def abs_if)
  qed
qed

lemma rnd_not_NaN: "rnd x \<noteq> NaN"
  by (simp add: rnd_alt)

lemma rnd_mono: "x \<le> y \<Longrightarrow> fle (rnd x) (rnd y)"
  using nearest_mono [of x y] overflow_threshold_gt_one by (simp add: rnd_alt)

lemma rnd_zero: "rnd 0 = Fin 0"
  by (simp add: rnd_def)

lemma rnd_one: "rnd 1 = Fin 1"
  using overflow_threshold_gt_one by (simp add: rnd_alt nearest_one)

lemma rnd_nonneg: "0 \<le> x \<Longrightarrow> rnd x = PInf \<or> (\<exists>y. rnd x = Fin y \<and> 0 \<le> y)"
  using nearest_nonneg [of x] overflow_threshold_gt_one by (simp add: rnd_alt)

lemma rnd_ge_one: "1 \<le> x \<Longrightarrow> rnd x = PInf \<or> (\<exists>y. rnd x = Fin y \<and> 1 \<le> y)"
  using nearest_mono [of 1 x] overflow_threshold_gt_one by (simp add: rnd_alt nearest_one)

section \<open>Rounding: values that are kept, and evaluation\<close>

lemma rnd_double: 
  assumes "is_double x" shows "rnd x = Fin x"
proof -
  from assms obtain m e where x: "x = of_int m * 2 powi e" and m: "\<bar>m\<bar> < 2 ^ 53"
    and e: "- 1074 \<le> e" "e \<le> 971"
    unfolding is_double_def by blast
  have n: "nearest x = x" unfolding x using m e(1) by (rule nearest_double)
  have "of_int \<bar>m\<bar> < (2::real) ^ 53"
    using m by simp
  then have "\<bar>x\<bar> < 2 ^ 53 * 2 powi e"
    unfolding x abs_mult by (simp add: mult_strict_right_mono)
  also have "\<dots> = 2 powi (e + 53)" using pow2_shift [of 53 e] by simp
  also have "\<dots> \<le> 2 powi 1024" using e(2) by (intro power_int_increasing) simp_all
  also have "\<dots> = overflow_threshold"
    using power_int_of_nat [of "2::real" 1024] by (simp only: overflow_threshold_def of_nat_numeral)
  finally have "\<bar>x\<bar> < overflow_threshold" .
  then have "\<not> overflow_threshold \<le> x" and "\<not> x \<le> - overflow_threshold" by linarith+
  then show ?thesis by (simp add: rnd_alt n)
qed

lemma is_double_of_int: "\<bar>n\<bar> < 2 ^ 53 \<Longrightarrow> is_double (of_int n)"
  unfolding is_double_def by (rule exI [of _ n], rule exI [of _ 0]) simp

lemma rnd_of_int: "\<bar>n\<bar> < 2 ^ 53 \<Longrightarrow> rnd (of_int n) = Fin (of_int n)"
  by (intro rnd_double is_double_of_int)

lemma rnd_numeral: "(numeral k :: int) < 2 ^ 53 \<Longrightarrow> rnd (numeral k) = Fin (numeral k)"
  using rnd_of_int [of "numeral k"] by simp

lemma rnd_half: "rnd (1/2) = Fin (1/2)"
proof -
  have "is_double (1/2)"
    unfolding is_double_def by (rule exI [of _ 1], rule exI [of _ "- 1"]) simp
  then show ?thesis by (rule rnd_double)
qed

text \<open>Rounding a value of the normal range whose binade is known.\<close>

lemma rnd_normal:
  assumes "2 powi (e + 52) \<le> \<bar>x\<bar>" and "\<bar>x\<bar> < 2 powi (e + 53)"
    and "- 1074 \<le> e" and "e \<le> 970"
  shows "rnd x = Fin (of_int (round_even (x / 2 powi e)) * 2 powi e)"
proof -
  have q: "quantum_exp x = e" using assms(1-3) by (rule quantum_exp_eq)
  have n: "nearest x = of_int (round_even (x / 2 powi e)) * 2 powi e"
    by (simp add: nearest_def q)
  have "\<bar>x\<bar> \<le> of_int (2 ^ 53) * 2 powi e"
    using assms(2) pow2_shift [of 53 e] by simp
  then have up: "x \<le> of_int (2 ^ 53) * 2 powi quantum_exp x"
    and lo: "of_int (- (2 ^ 53)) * 2 powi quantum_exp x \<le> x"
    unfolding q by (simp_all add: abs_le_iff) 
  have "nearest x \<le> of_int (2 ^ 53) * 2 powi quantum_exp x"
    using up by (rule nearest_le)
  moreover have "of_int (- (2 ^ 53)) * 2 powi quantum_exp x \<le> nearest x"
    using lo by (rule nearest_ge)
  ultimately have "\<bar>nearest x\<bar> \<le> 2 ^ 53 * 2 powi e"
    unfolding q by (simp add: abs_le_iff)
  also have "\<dots> = 2 powi (e + 53)" using pow2_shift [of 53 e] by simp
  also have "\<dots> < 2 powi 1024" using assms(4) by (intro power_int_strict_increasing) simp_all
  also have "\<dots> = overflow_threshold"
    using power_int_of_nat [of "2::real" 1024] by (simp only: overflow_threshold_def of_nat_numeral)
  finally have "\<bar>nearest x\<bar> < overflow_threshold" .
  then have "\<not> overflow_threshold \<le> nearest x" and "\<not> nearest x \<le> - overflow_threshold"
    by linarith+
  then show ?thesis by (simp add: rnd_alt n)
qed

section \<open>The handler as a function of its six fields\<close>

lemma fields_request:
  "fields (request T Tf L q a b) = [JNum T, JNum Tf, JNum L, JNum q, JNum a, JNum b]"
  by (simp add: fields_def request_def)

lemma fields_nullish: "b = JUndefined \<or> b = JNull \<Longrightarrow> fields b = replicate 6 JUndefined"
  by (auto simp: fields_def numeral_eq_Suc)

lemma not_positive_JNum: "not_positive (JNum x) = fle x (Fin 0)"
  by (simp add: not_positive_def)

text \<open>The handler as a function of the six values it reads.\<close>

lemma estimate_fields:
  assumes "b \<noteq> JUndefined" and "b \<noteq> JNull"
    and "fields b = [T, Tf, L, q, a, \<beta>]"
  shows "estimate approx b =
     (if list_ex not_positive [T, Tf, L, q, a, \<beta>] then invalid_input
      else if fle (num_of T) (num_of Tf) then free_flow
      else if flt (bpr_base (num_of T) (num_of Tf) (num_of a)) (Fin 0) then invalid_base
      else computed (bpr_flow approx (num_of T) (num_of Tf) (num_of q) (num_of a) (num_of \<beta>))
             (fmul (bpr_flow approx (num_of T) (num_of Tf) (num_of q) (num_of a) (num_of \<beta>))
                (hours (num_of T)))
             (travel_time_ratio (num_of T) (num_of Tf)))"
  using assms
  unfolding estimate_def fields_def Let_def invalid_input_def free_flow_def invalid_base_def
    computed_def bpr_flow_def bpr_base_def travel_time_ratio_def hours_def
  by simp

lemma estimate_numbers:
  assumes "fields b = [JNum T, JNum Tf, JNum L, JNum q, JNum a, JNum \<beta>]"
  shows "estimate approx b =
     (if fle T (Fin 0) \<or> fle Tf (Fin 0) \<or> fle L (Fin 0) \<or> fle q (Fin 0) \<or> fle a (Fin 0)
         \<or> fle \<beta> (Fin 0) then invalid_input
      else if fle T Tf then free_flow
      else if flt (bpr_base T Tf a) (Fin 0) then invalid_base
      else computed (bpr_flow approx T Tf q a \<beta>) (fmul (bpr_flow approx T Tf q a \<beta>) (hours T))
             (travel_time_ratio T Tf))"
proof -
  have "b \<noteq> JUndefined" and "b \<noteq> JNull"
    using assms fields_nullish [of b] by (auto simp: numeral_eq_Suc)
  from estimate_fields [OF this assms] show ?thesis
    by (simp add: not_positive_JNum)
qed

section \<open>The base is never negative\<close>

lemma not_flt_iff: "(\<not> flt v (Fin c)) = (v = NaN \<or> fle (Fin c) v)"
  by (cases v) auto

lemma fdiv_NaN_right: "fdiv x NaN = NaN"
  by (cases x) simp_all

lemma hours_Fin: "hours (Fin t) = rnd (t / 60)"
  by (simp add: hours_def)

lemma hours_simps: "hours NaN = NaN" "hours PInf = PInf" "hours NInf = NInf"
  by (simp_all add: hours_def)

lemma ratio_Fin_Fin:
  assumes "0 < tf" and "tf < t"
  shows "\<not> flt (travel_time_ratio (Fin t) (Fin tf)) (Fin 1)"
proof -
  have le: "fle (rnd (tf / 60)) (rnd (t / 60))"
    using assms by (intro rnd_mono) simp
  from rnd_nonneg [of "tf / 60"] assms(1)
  consider "rnd (tf / 60) = PInf" | y where "rnd (tf / 60) = Fin y" "0 \<le> y"
    by auto
  then show ?thesis
  proof cases
    case 1
    with le have "rnd (t / 60) = PInf" by (cases "rnd (t / 60)") auto
    with 1 show ?thesis by (simp add: travel_time_ratio_def hours_Fin)
  next
    case 2
    show ?thesis
    proof (cases "rnd (t / 60)")
      case NaN
      then show ?thesis by (simp add: rnd_not_NaN)
    next
      case PInf
      with 2 show ?thesis by (simp add: travel_time_ratio_def hours_Fin)
    next
      case NInf
      with le 2 show ?thesis by simp
    next
      case (Fin x)
      with le 2 have yx: "y \<le> x" by simp
      show ?thesis
      proof (cases "y = 0")
        case True
        with Fin 2 yx show ?thesis by (simp add: travel_time_ratio_def hours_Fin)
      next
        case False
        with 2 yx have "1 \<le> x / y" by simp
        from rnd_ge_one [OF this] Fin 2 False show ?thesis
          by (auto simp: travel_time_ratio_def hours_Fin)
      qed
    qed
  qed
qed

lemma ratio_not_below_one:
  assumes "\<not> fle T (Fin 0)" and "\<not> fle Tf (Fin 0)" and "\<not> fle T Tf"
  shows "\<not> flt (travel_time_ratio T Tf) (Fin 1)"
proof (cases T)
  case NaN
  then show ?thesis by (simp add: travel_time_ratio_def hours_simps)
next
  case PInf
  show ?thesis
  proof (cases Tf)
    case (Fin tf)
    with assms(2) have "0 < tf" by simp
    with rnd_nonneg [of "tf / 60"] PInf Fin show ?thesis
      by (auto simp: travel_time_ratio_def hours_simps hours_Fin)
  qed (use assms PInf in \<open>simp_all add: travel_time_ratio_def hours_simps\<close>)
next
  case NInf
  with assms(1) show ?thesis by simp
next
  case (Fin t)
  show ?thesis
  proof (cases Tf)
    case (Fin tf)
    with assms \<open>T = Fin t\<close> show ?thesis by (simp add: ratio_Fin_Fin)
  qed (use assms Fin in \<open>simp_all add: travel_time_ratio_def hours_simps fdiv_NaN_right\<close>)
qed

lemma fsub_one_not_negative:
  assumes "\<not> flt r (Fin 1)"
  shows "\<not> flt (fsub r (Fin 1)) (Fin 0)"
proof (cases r)
  case (Fin x)
  with assms have "0 \<le> x - 1" by simp
  from rnd_nonneg [OF this] Fin show ?thesis by auto
qed (use assms in simp_all)

lemma fdiv_not_negative:
  assumes "\<not> flt d (Fin 0)" and "\<not> fle a (Fin 0)"
  shows "\<not> flt (fdiv d a) (Fin 0)"
proof (cases d)
  case (Fin x)
  show ?thesis
  proof (cases a)
    case (Fin y)
    with assms \<open>d = Fin x\<close> have "0 \<le> x / y" by simp
    from rnd_nonneg [OF this] Fin \<open>d = Fin x\<close> assms show ?thesis by auto
  qed (use assms Fin in simp_all)
next
  case PInf
  with assms show ?thesis by (cases a) auto
qed (use assms in simp_all)

lemma base_not_negative:
  assumes "\<not> fle T (Fin 0)" and "\<not> fle Tf (Fin 0)" and "\<not> fle a (Fin 0)" and "\<not> fle T Tf"
  shows "\<not> flt (bpr_base T Tf a) (Fin 0)"
  unfolding bpr_base_def
  by (intro fdiv_not_negative fsub_one_not_negative ratio_not_below_one assms)

lemma flt_zero_not_fle: "flt (Fin 0) v \<Longrightarrow> \<not> fle v (Fin 0)"
  by (cases v) auto

lemma Math_round_integer: "Math_round x = Fin r \<Longrightarrow> r \<in> \<int>"
  by (cases x) (auto simp: Math_round_def)

lemma pow_rn_one: "0 < x \<Longrightarrow> pow_rn x 1 = rnd x"
  by (simp add: pow_rn_def)

text \<open>No body at all is answered with the rejection for a negative base.\<close>

lemma invalid_base_unreachable: "estimate approx b \<noteq> invalid_base"
proof (cases "b = JUndefined \<or> b = JNull")
  case True
  then show ?thesis by (auto simp: estimate_def invalid_base_def)
next
  case False
  obtain T Tf L q a \<beta> where f: "fields b = [T, Tf, L, q, a, \<beta>]"
    by (simp add: fields_def)
  have e: "estimate approx b =
     (if list_ex not_positive [T, Tf, L, q, a, \<beta>] then invalid_input
      else if fle (num_of T) (num_of Tf) then free_flow
      else if flt (bpr_base (num_of T) (num_of Tf) (num_of a)) (Fin 0) then invalid_base
      else computed (bpr_flow approx (num_of T) (num_of Tf) (num_of q) (num_of a) (num_of \<beta>))
             (fmul (bpr_flow approx (num_of T) (num_of Tf) (num_of q) (num_of a) (num_of \<beta>))
                (hours (num_of T)))
             (travel_time_ratio (num_of T) (num_of Tf)))"
    using False f by (intro estimate_fields) simp_all
  show ?thesis
  proof (cases "list_ex not_positive [T, Tf, L, q, a, \<beta>] \<or> fle (num_of T) (num_of Tf)")
    case True
    then show ?thesis
      unfolding e by (auto simp: invalid_input_def invalid_base_def free_flow_def)
  next
    case False
    then have "\<not> fle (num_of T) (Fin 0)" and "\<not> fle (num_of Tf) (Fin 0)"
      and "\<not> fle (num_of a) (Fin 0)" and "\<not> fle (num_of T) (num_of Tf)"
      by (auto simp: not_positive_def split: if_splits)
    then have "\<not> flt (bpr_base (num_of T) (num_of Tf) (num_of a)) (Fin 0)"
      by (rule base_not_negative)
    with False show ?thesis
      unfolding e by (simp add: computed_def invalid_base_def)
  qed
qed

section \<open>Evaluation at concrete requests\<close>

lemmas eval_simps =
  hours_def travel_time_ratio_def bpr_base_def bpr_flow_def Number_toFixed_def toFixed_limit_def
  Math_round_def
  rnd_numeral rnd_one rnd_zero rnd_half pow_rn_one computed_def

lemma status_simps:
  "status invalid_input = 400" "status invalid_base = 400" "status free_flow = 200"
  "status (computed q N r) = 200"
  by (simp_all add: invalid_input_def invalid_base_def free_flow_def computed_def)

lemma status_nullish:
  "b = JUndefined \<or> b = JNull \<Longrightarrow> status (estimate approx b) = 500"
  by (auto simp: estimate_def)

lemma rnd_256: "rnd (1 / 256) = Fin (1 / 256)"
  using rnd_normal [of "- 60" "1 / 256"] by (simp add: round_even_def Let_def)

lemma rnd_200_256: "rnd (25 / 32) = Fin (25 / 32)"
  using rnd_normal [of "- 53" "25 / 32"] by (simp add: round_even_def Let_def)

lemma example_12000:
  "estimate pow_rn (request (Fin 12000) (Fin 6000) (Fin 5) (Fin 1) (Fin 256) (Fin 1)) =
     \<lparr>status = 200,
      body = [(''q_veh_per_h'', JNum (Fin 0)), (''N_veh'', JNum (Fin 1)),
              (''Tratio'', JNum (Fin 2))]\<rparr>"
  by (simp add: estimate_numbers [OF fields_request] eval_simps rnd_256 rnd_200_256)

lemma example_L_infinite:
  "estimate pow_rn (request (Fin 120) (Fin 60) PInf (Fin 1000) (Fin 1) (Fin 1)) =
     \<lparr>status = 200,
      body = [(''q_veh_per_h'', JNum (Fin 1000)), (''N_veh'', JNum (Fin 2000)),
              (''Tratio'', JNum (Fin 2))]\<rparr>"
  by (simp add: estimate_numbers [OF fields_request] eval_simps)

lemma round_even_small: "0 \<le> y \<Longrightarrow> y \<le> 1/2 \<Longrightarrow> round_even y = 0"
proof -
  assume a: "0 \<le> y" "y \<le> 1/2"
  then have "\<lfloor>y\<rfloor> = 0" by (intro floor_unique) simp_all
  with a show ?thesis by (simp add: round_even_def Let_def)
qed

lemma rnd_underflow:
  assumes "0 \<le> x" and "x \<le> min_subnormal / 2"
  shows "rnd x = Fin 0"
proof (cases "x = 0")
  case True
  then show ?thesis by (simp add: rnd_zero)
next
  case False
  have ms: "0 < min_subnormal" by (simp add: min_subnormal_def)
  have "min_subnormal \<le> 2 powi (- 1022)"
    unfolding min_subnormal_def by (intro power_int_increasing) simp_all
  with assms ms have "\<bar>x\<bar> < 2 powi (- 1022)" by simp
  with False have q: "quantum_exp x = - 1074" by (rule quantum_exp_subnormal)
  have "x / min_subnormal \<le> 1/2" using assms(2) ms by (simp add: pos_divide_le_eq)
  moreover have "0 \<le> x / min_subnormal" using assms(1) ms by simp
  ultimately have "round_even (x / min_subnormal) = 0" by (intro round_even_small)
  then have "nearest x = 0" by (simp add: nearest_def q min_subnormal_def)
  then show ?thesis using overflow_threshold_gt_one by (simp add: rnd_alt)
qed

lemma min_subnormal_pos: "0 < min_subnormal"
  by (simp add: min_subnormal_def)

lemma hours_underflow:
  "hours (Fin (2 * min_subnormal)) = Fin 0" "hours (Fin min_subnormal) = Fin 0"
  using min_subnormal_pos by (simp_all add: hours_def rnd_underflow)

lemma hours_57: "hours (Fin 57) = Fin (8556839292003942 / 2 ^ 53)"
  using rnd_normal [of "- 53" "57 / 60"] by (simp add: hours_def round_even_def Let_def)

lemma hours_48: "hours (Fin 48) = Fin (7205759403792794 / 2 ^ 53)"
  using rnd_normal [of "- 53" "48 / 60"] by (simp add: hours_def round_even_def Let_def)

lemma ratio_57_48: "travel_time_ratio (Fin 57) (Fin 48) = Fin (5348024557502463 / 2 ^ 52)"
  using rnd_normal [of "- 52" "8556839292003942 / 2 ^ 53 / (7205759403792794 / 2 ^ 53)"]
  by (simp add: travel_time_ratio_def hours_57 hours_48 round_even_def Let_def)

lemma rnd_1187: "rnd (1187 / 1000) = Fin (5345772757688779 / 2 ^ 52)"
  using rnd_normal [of "- 52" "1187 / 1000"] by (simp add: round_even_def Let_def)

lemma rnd_1188: "rnd (297 / 250) = Fin (5350276357316149 / 2 ^ 52)"
  using rnd_normal [of "- 52" "297 / 250"] by (simp add: round_even_def Let_def)

lemma rnd_19_16: "rnd (19 / 16) = Fin (19 / 16)"
  using rnd_normal [of "- 52" "19 / 16"] by (simp add: round_even_def Let_def)

section \<open>More evaluation: scenario 2 and a nearby travel time\<close>

lemma round_even_eqI:
  assumes "of_int m - 1/2 < y" and "y < of_int m + 1/2"
  shows "round_even y = m"
proof -
  have "real_of_int (round_even y) < of_int (m + 1)"
    using round_even_upper [of y] assms(2) by simp
  then have "round_even y < m + 1" by (simp only: of_int_less_iff)
  moreover have "real_of_int (m - 1) < of_int (round_even y)"
    using round_even_lower [of y] assms(1) by simp
  then have "m - 1 < round_even y" by (simp only: of_int_less_iff)
  ultimately show ?thesis by simp
qed

text \<open>Bounds on a fourth root from fourth powers.\<close>

lemma root4_power: "0 \<le> (a::real) \<Longrightarrow> (a ^ 4) powr (1/4) = a"
proof -
  assume a: "0 \<le> a"
  have "(a ^ 4) powr (1/4) = root 4 (a ^ 4)"
    using a by (simp add: root_powr_inverse)
  also have "\<dots> = a" using a by (simp add: real_root_power_cancel)
  finally show ?thesis .
qed

lemma root4_gt:
  fixes a x :: real
  assumes "0 \<le> a" and "a ^ 4 < x"
  shows "a < x powr (1/4)"
proof -
  have "(a ^ 4) powr (1/4) < x powr (1/4)"
    using assms by (intro powr_less_mono2) simp_all
  then show ?thesis using assms(1) by (simp only: root4_power)
qed

lemma root4_lt:
  fixes b x :: real
  assumes "0 < b" and "0 \<le> x" and "x < b ^ 4"
  shows "x powr (1/4) < b"
proof -
  have "x powr (1/4) < (b ^ 4) powr (1/4)"
    using assms by (intro powr_less_mono2) simp_all
  moreover have "0 \<le> b" using assms(1) by simp
  ultimately show ?thesis by (simp only: root4_power)
qed

lemma round_even_abs_le:
  assumes "\<bar>y\<bar> \<le> of_int n"
  shows "\<bar>round_even y\<bar> \<le> n"
proof -
  have "y \<le> of_int n" and "of_int (- n) \<le> y" using assms by (simp_all add: abs_le_iff)
  then have "round_even y \<le> n" and "- n \<le> round_even y"
    by (simp_all only: round_even_le round_even_ge)
  then show ?thesis by simp
qed

lemma nearest_idem: "nearest (nearest x) = nearest x"
proof (cases "x = 0")
  case True
  then show ?thesis by (simp add: nearest_zero)
next
  case False
  define q where "q = quantum_exp x"
  define m where "m = round_even (x / 2 powi q)"
  have n: "nearest x = of_int m * 2 powi q" by (simp add: nearest_def m_def q_def)
  have q: "- 1074 \<le> q" by (simp add: q_def quantum_exp_ge)
  have "\<bar>x\<bar> < 2 ^ 53 * 2 powi q"
    using quantum_exp_upper [OF False] pow2_shift [of 53 q] by (simp add: q_def)
  then have "\<bar>x / 2 powi q\<bar> \<le> of_int (2 ^ 53)"
    by (simp add: pos_divide_le_eq)
  then have m: "\<bar>m\<bar> \<le> 2 ^ 53" unfolding m_def by (rule round_even_abs_le)
  show ?thesis
  proof (cases "\<bar>m\<bar> < 2 ^ 53")
    case True
    then show ?thesis unfolding n using q by (rule nearest_double)
  next
    case False
    with m have "m = 2 ^ 53 \<or> m = - (2 ^ 53)" by (simp add: abs_if split: if_splits)
    then have "real_of_int m * 2 powi q = of_int (m div 2) * 2 powi (q + 1)"
      and "\<bar>m div 2\<bar> < 2 ^ 53"
      by (auto simp: power_int_add)
    moreover have "- 1074 \<le> q + 1" using q by simp
    ultimately show ?thesis unfolding n by (simp only: nearest_double)
  qed
qed

lemma rnd_idem:
  assumes "rnd x = Fin y"
  shows "rnd y = Fin y"
proof -
  from assms have y: "nearest x = y" and b: "\<not> overflow_threshold \<le> y" "\<not> y \<le> - overflow_threshold"
    by (simp_all add: rnd_alt split: if_splits)
  have "nearest y = y" using nearest_idem [of x] by (simp add: y)
  with b show ?thesis by (simp add: rnd_alt)
qed

lemma rnd_between:
  assumes "a \<le> x" and "x \<le> b" and "rnd a = Fin a'" and "rnd b = Fin b'"
  obtains y where "rnd x = Fin y" and "a' \<le> y" and "y \<le> b'"
proof -
  have "fle (Fin a') (rnd x)" and "fle (rnd x) (Fin b')"
    using rnd_mono [OF assms(1)] rnd_mono [OF assms(2)] assms(3,4) by simp_all
  then show thesis by (cases "rnd x") (auto intro: that)
qed

lemma rnd_0_15: "rnd (15 / 100) = Fin double_0_15"
  using rnd_normal [of "- 55" "15 / 100"] by (simp add: double_0_15_def round_even_def Let_def)

lemma rnd_quarter: "rnd (1/4) = Fin (1/4)"
  using rnd_normal [of "- 54" "1/4"] by (simp add: round_even_def Let_def)

lemma base_scenario_2: "bpr_base (Fin 60) (Fin 30) (Fin double_0_15) = Fin scenario_2_base"
  using rnd_normal [of "- 50" "1 / double_0_15"]
  by (simp add: eval_simps double_0_15_def scenario_2_base_def round_even_def Let_def)

lemma root_scenario_2:
  "16068568378 / 10 ^ 10 < scenario_2_base powr (1/4)"
  "scenario_2_base powr (1/4) < 16068568379 / 10 ^ 10"
  unfolding scenario_2_base_def
  by (rule root4_gt; simp add: divide_simps) (rule root4_lt; simp add: divide_simps)

lemma rnd_lo: "rnd (1606 + 877 / 1024) = Fin (1606 + 877 / 1024)"
  using rnd_normal [of "- 42" "1606 + 877 / 1024"] by (simp add: round_even_def Let_def)

lemma rnd_hi: "rnd (1606 + 878 / 1024) = Fin (1606 + 878 / 1024)"
  using rnd_normal [of "- 42" "1606 + 878 / 1024"] by (simp add: round_even_def Let_def)

lemma rnd_160686: "rnd (80343 / 50) = Fin (7067045016832573 / 2 ^ 42)"
  using rnd_normal [of "- 42" "80343 / 50"] by (simp add: round_even_def Let_def)

lemma flow_scenario_2:
  assumes "approx scenario_2_base (1/4) = Fin p"
    and "\<bar>p - scenario_2_base powr (1/4)\<bar> \<le> 1 / 2 ^ 40"
  obtains y where
    "bpr_flow approx (Fin 60) (Fin 30) (Fin 1000) (Fin double_0_15) (Fin 4) = Fin y"
    and "1606 + 877 / 1024 \<le> y" and "y \<le> 1606 + 878 / 1024" and "rnd y = Fin y"
proof -
  define r :: real where "r = scenario_2_base powr (1/4)"
  have "16068568378 / 10 ^ 10 < r" and "r < 16068568379 / 10 ^ 10"
    unfolding r_def by (rule root_scenario_2)+
  moreover have "p - r \<le> 1 / 2 ^ 40" and "r - p \<le> 1 / 2 ^ 40"
    using assms(2) unfolding r_def by (simp_all only: abs_le_iff minus_diff_eq)
  ultimately have "1606 + 877 / 1024 \<le> 1000 * p" and "1000 * p \<le> 1606 + 878 / 1024"
    by simp_all
  then obtain y where y: "rnd (1000 * p) = Fin y" "1606 + 877 / 1024 \<le> y" "y \<le> 1606 + 878 / 1024"
    using rnd_lo rnd_hi by (rule rnd_between)
  have nz: "scenario_2_base \<noteq> 0" "\<not> scenario_2_base < 0" by (simp_all add: scenario_2_base_def)
  have "bpr_flow approx (Fin 60) (Fin 30) (Fin 1000) (Fin double_0_15) (Fin 4) = Fin y"
    unfolding bpr_flow_def base_scenario_2 by (simp add: rnd_quarter nz assms(1) y(1))
  moreover have "rnd y = Fin y" using y(1) by (rule rnd_idem)
  ultimately show thesis using y(2,3) by (intro that)
qed

lemma scenario_2_general:
  assumes "approx scenario_2_base (1/4) = Fin p"
    and "\<bar>p - scenario_2_base powr (1/4)\<bar> \<le> 1 / 2 ^ 40"
  shows "estimate approx scenario_2 =
         \<lparr>status = 200,
          body = [(''q_veh_per_h'', JNum (Fin (7067045016832573 / 2 ^ 42))),
                  (''N_veh'', JNum (Fin 1607)), (''Tratio'', JNum (Fin 2))]\<rparr>"
proof -
  from assms obtain y where
    f: "bpr_flow approx (Fin 60) (Fin 30) (Fin 1000) (Fin double_0_15) (Fin 4) = Fin y"
    and y: "1606 + 877 / 1024 \<le> y" "y \<le> 1606 + 878 / 1024" and i: "rnd y = Fin y"
    by (rule flow_scenario_2)
  have "\<lfloor>y + 1/2\<rfloor> = 1607" using y by (intro floor_unique) simp_all
  then have N: "Math_round (fmul (Fin y) (hours (Fin 60))) = Fin 1607"
    by (simp add: Math_round_def hours_def rnd_one i)
  have "\<lfloor>\<bar>y\<bar> * 10 ^ 2 + 1/2\<rfloor> = 160686" using y by (intro floor_unique) simp_all
  moreover have "\<not> toFixed_limit \<le> \<bar>y\<bar>" and "sgn y = 1"
    using y by (simp_all add: toFixed_limit_def)
  ultimately have q: "Number_toFixed 2 (Fin y) = Fin (7067045016832573 / 2 ^ 42)"
    by (simp add: Number_toFixed_def rnd_160686)
  have r: "Number_toFixed 3 (travel_time_ratio (Fin 60) (Fin 30)) = Fin 2"
    by (simp add: eval_simps)
  have nb: "\<not> flt (bpr_base (Fin 60) (Fin 30) (Fin double_0_15)) (Fin 0)"
    unfolding base_scenario_2 by (simp add: scenario_2_base_def)
  have pos: "0 < double_0_15" by (simp add: double_0_15_def)
  show ?thesis
    unfolding scenario_2_def estimate_numbers [OF fields_request]
    using nb pos by (simp add: computed_def f N q r)
qed

text \<open>The correctly rounded power at the base of scenario 2.\<close>

lemma pow_rn_scenario_2: "pow_rn scenario_2_base (1/4) = Fin (7236639856356001 / 2 ^ 52)"
proof -
  define r :: real where "r = scenario_2_base powr (1/4)"
  have lo: "(7236639856356001 - 1/2) / 2 ^ 52 < r"
    unfolding r_def scenario_2_base_def by (rule root4_gt; simp add: divide_simps)
  have hi: "r < (7236639856356001 + 1/2) / 2 ^ 52"
    unfolding r_def scenario_2_base_def by (rule root4_lt; simp add: divide_simps)
  have "round_even (r / 2 powi (- 52)) = 7236639856356001"
    using lo hi by (intro round_even_eqI) (simp_all add: divide_simps)
  moreover have "2 powi (- 52 + 52) \<le> \<bar>r\<bar>" and "\<bar>r\<bar> < 2 powi (- 52 + 53)"
    using lo hi by simp_all
  ultimately have "rnd r = Fin (7236639856356001 / 2 ^ 52)"
    using rnd_normal [of "- 52" r] by simp
  moreover have "0 < scenario_2_base" by (simp add: scenario_2_base_def)
  ultimately show ?thesis by (simp add: pow_rn_def r_def)
qed

lemma root_scenario_2_tight:
  "(7236639856356001 - 1/2) / 2 ^ 52 < scenario_2_base powr (1/4)"
  "scenario_2_base powr (1/4) < (7236639856356001 + 1/2) / 2 ^ 52"
  unfolding scenario_2_base_def
  by (rule root4_gt; simp add: divide_simps) (rule root4_lt; simp add: divide_simps)

lemma pow_rn_scenario_2_accuracy:
  "\<bar>7236639856356001 / 2 ^ 52 - scenario_2_base powr (1/4)\<bar> \<le> 1 / 2 ^ 40"
proof -
  define r :: real where "r = scenario_2_base powr (1/4)"
  have "(7236639856356001 - 1/2) / 2 ^ 52 < r" and "r < (7236639856356001 + 1/2) / 2 ^ 52"
    unfolding r_def by (rule root_scenario_2_tight)+
  then have "7236639856356001 / 2 ^ 52 - r \<le> 1 / 2 ^ 40"
    and "r - 7236639856356001 / 2 ^ 52 \<le> 1 / 2 ^ 40"
    by simp_all
  then show ?thesis unfolding r_def by (simp only: abs_le_iff minus_diff_eq)
qed








section \<open>Monotonicity of the operations\<close>













lemma Number_toFixed_nonneg:
  assumes "0 \<le> r"
  shows "Number_toFixed f (Fin r) =
           (if toFixed_limit \<le> r then Fin r else rnd (of_int \<lfloor>r * 10 ^ f + 1/2\<rfloor> / 10 ^ f))"
proof (cases "r = 0")
  case True
  then show ?thesis by (simp add: Number_toFixed_def toFixed_limit_def)
next
  case False
  with assms have "sgn r = 1" and "\<bar>r\<bar> = r" by simp_all
  then show ?thesis by (simp add: Number_toFixed_def)
qed





section \<open>Rounding error of the travel time ratio\<close>

text \<open>In the normal range the relative error of rounding is at most \<open>2^-53\<close>.\<close>

lemma round_even_error: "\<bar>of_int (round_even y) - y\<bar> \<le> 1/2"
  using round_even_lower [of y] round_even_upper [of y] by linarith

lemma nearest_rel_error:
  assumes "2 powi (- 1022) \<le> \<bar>x\<bar>"
  shows "\<bar>nearest x - x\<bar> \<le> \<bar>x\<bar> / 2 ^ 53"
proof -
  have xne: "x \<noteq> 0"
    using assms by (smt (verit) zero_less_power_int abs_zero)
  define k where "k = \<lfloor>log 2 \<bar>x\<bar>\<rfloor>"
  have lo: "2 powi k \<le> \<bar>x\<bar>" and hi: "\<bar>x\<bar> < 2 powi (k + 1)"
    unfolding k_def by (rule floor_log2_bounds [OF xne])+
  have "- 1022 \<le> k"
  proof (rule ccontr)
    assume "\<not> - 1022 \<le> k"
    then have "(2::real) powi (k + 1) \<le> 2 powi (- 1022)"
      by (intro power_int_increasing) simp_all
    with hi assms show False by linarith
  qed
  then have q: "quantum_exp x = k - 52"
    unfolding quantum_exp_def k_def [symmetric] by simp
  define p :: real where "p = 2 powi (k - 52)"
  have p: "0 < p" by (simp add: p_def)
  have "k - 52 + int 53 = k + 1" by simp
  then have "(2::real) ^ 53 * 2 powi (k - 52) = 2 powi (k + 1)"
    by (simp only: pow2_shift)
  also have "\<dots> = 2 * 2 powi k" by (simp add: power_int_add)
  finally have pk: "p * 2 ^ 53 = 2 * 2 powi k" by (simp add: p_def mult.commute)
  have "nearest x - x = (of_int (round_even (x / p)) - x / p) * p"
    using p by (simp add: nearest_def q p_def field_simps)
  then have "\<bar>nearest x - x\<bar> = \<bar>of_int (round_even (x / p)) - x / p\<bar> * p"
    using p by (simp add: abs_mult)
  also have "\<dots> \<le> 1/2 * p"
    using round_even_error [of "x / p"] p by (intro mult_right_mono) simp_all
  also have "\<dots> = 2 powi k / 2 ^ 53" using pk by (simp add: field_simps)
  also have "\<dots> \<le> \<bar>x\<bar> / 2 ^ 53" using lo by (simp add: divide_right_mono)
  finally show ?thesis .
qed

lemma nearest_pos_bounds:
  assumes "2 powi (- 1022) \<le> x"
  shows "x * (1 - 1 / 2 ^ 53) \<le> nearest x" and "nearest x \<le> x * (1 + 1 / 2 ^ 53)"
proof -
  have "0 < x" using assms by (smt (verit) zero_less_power_int)
  then have "\<bar>nearest x - x\<bar> \<le> x / 2 ^ 53"
    using nearest_rel_error [of x] assms by simp
  then have "nearest x - x \<le> x / 2 ^ 53" and "x - nearest x \<le> x / 2 ^ 53"
    by linarith+
  then show "x * (1 - 1 / 2 ^ 53) \<le> nearest x" and "nearest x \<le> x * (1 + 1 / 2 ^ 53)"
    by (simp_all add: algebra_simps)
qed

lemma rnd_finite:
  assumes "\<bar>nearest x\<bar> < 2 ^ k" and "k \<le> 1024"
  shows "rnd x = Fin (nearest x)"
proof -
  have "\<bar>nearest x\<bar> < overflow_threshold"
    using assms(1) overflow_threshold_ge [OF assms(2)] by linarith
  then have "\<not> overflow_threshold \<le> nearest x" and "\<not> nearest x \<le> - overflow_threshold"
    by linarith+
  then show ?thesis by (simp add: rnd_alt)
qed

lemma tiny_le:
  assumes "k \<le> 1022"
  shows "2 powi (- 1022) \<le> (1 / 2 ^ k :: real)"
proof -
  have "(2::real) powi (- 1022) \<le> 2 powi (- int k)"
    using assms by (intro power_int_increasing) simp_all
  also have "\<dots> = 1 / 2 ^ k"
    by (simp only: power_int_minus power_int_of_nat inverse_eq_divide)
  finally show ?thesis .
qed

text \<open>
  The ratio the handler forms from the two hour values, against the exact quotient
  \<open>t / tf\<close>: three roundings, each with relative error at most \<open>2^-53\<close>.
\<close>

lemma ratio_close:
  assumes tf: "1 / 2 ^ 100 \<le> tf" and lt: "tf < t" and t: "t \<le> 2 ^ 100"
  obtains x where "travel_time_ratio (Fin t) (Fin tf) = Fin x"
    and "(t / tf) * (1 - 4 / 2 ^ 53) \<le> x" and "x \<le> (t / tf) * (1 + 4 / 2 ^ 53)"
proof -
  define a b where "a = t / 60" and "b = tf / 60"
  define \<rho> where "\<rho> = t / tf"
  have pos: "0 < tf" "0 < t" using tf lt by (smt (verit) divide_pos_pos zero_less_power)+
  have b: "1 / 2 ^ 106 \<le> b" using tf by (simp add: b_def)
  have ab: "b < a" "0 < b" "0 < a" using lt pos by (simp_all add: a_def b_def)
  have a: "a \<le> 2 ^ 95" using t by (simp add: a_def)
  have \<rho>: "a / b = \<rho>" "1 \<le> \<rho>" using pos lt by (simp_all add: a_def b_def \<rho>_def)
  have nb: "2 powi (- 1022) \<le> b" using tiny_le [of 106] b by simp
  then have na: "2 powi (- 1022) \<le> a" using ab by simp
  define h1 h2 where "h1 = nearest a" and "h2 = nearest b"
  have h1: "a * (1 - 1 / 2 ^ 53) \<le> h1" "h1 \<le> a * (1 + 1 / 2 ^ 53)"
    unfolding h1_def by (rule nearest_pos_bounds [OF na])+
  have h2: "b * (1 - 1 / 2 ^ 53) \<le> h2" "h2 \<le> b * (1 + 1 / 2 ^ 53)"
    unfolding h2_def by (rule nearest_pos_bounds [OF nb])+
  have h2pos: "0 < h2"
  proof -
    have "0 < b * (1 - 1 / 2 ^ 53)" using ab(2) by simp
    with h2(1) show ?thesis by linarith
  qed
  have h1pos: "0 < h1"
  proof -
    have "0 < a * (1 - 1 / 2 ^ 53)" using ab(3) by simp
    with h1(1) show ?thesis by linarith
  qed
  have "h1 \<le> a * 2" using h1(2) ab(3) by simp
  then have "\<bar>h1\<bar> < 2 ^ 97" using a h1pos by simp
  then have r1: "rnd a = Fin h1" unfolding h1_def by (rule rnd_finite) simp
  have "h2 \<le> b * 2" using h2(2) ab(2) by simp
  then have "\<bar>h2\<bar> < 2 ^ 97" using a ab(1) h2pos by simp
  then have r2: "rnd b = Fin h2" unfolding h2_def by (rule rnd_finite) simp
  define c where "c = h1 / h2"
  have c_hi: "c \<le> \<rho> * ((1 + 1 / 2 ^ 53) / (1 - 1 / 2 ^ 53))"
  proof -
    have "h1 / h2 \<le> a * (1 + 1 / 2 ^ 53) / (b * (1 - 1 / 2 ^ 53))"
      using h1(2) h2(1) h1pos ab(2) by (intro frac_le) simp_all
    also have "\<dots> = a / b * ((1 + 1 / 2 ^ 53) / (1 - 1 / 2 ^ 53))" by simp
    finally show ?thesis by (simp only: c_def \<rho>(1))
  qed
  have c_lo: "\<rho> * ((1 - 1 / 2 ^ 53) / (1 + 1 / 2 ^ 53)) \<le> c"
  proof -
    have "a * (1 - 1 / 2 ^ 53) / (b * (1 + 1 / 2 ^ 53)) \<le> h1 / h2"
      using h1(1) h2(2) h2pos ab(3) by (intro frac_le) simp_all
    moreover have "a * (1 - 1 / 2 ^ 53) / (b * (1 + 1 / 2 ^ 53)) =
        a / b * ((1 - 1 / 2 ^ 53) / (1 + 1 / 2 ^ 53))" by simp
    ultimately show ?thesis by (simp only: c_def \<rho>(1))
  qed
  have cpos: "1 / 2 \<le> c"
  proof -
    have "1 * (1 / 2) \<le> \<rho> * ((1 - 1 / 2 ^ 53) / (1 + 1 / 2 ^ 53))"
      using \<rho>(2) by (intro mult_mono) simp_all
    with c_lo show ?thesis by simp
  qed
  have nc: "2 powi (- 1022) \<le> c" using tiny_le [of 1] cpos by simp
  define x where "x = nearest c"
  have x: "c * (1 - 1 / 2 ^ 53) \<le> x" "x \<le> c * (1 + 1 / 2 ^ 53)"
    unfolding x_def by (rule nearest_pos_bounds [OF nc])+
  have x_hi: "x \<le> \<rho> * (1 + 4 / 2 ^ 53)"
  proof -
    have "c * (1 + 1 / 2 ^ 53) \<le> \<rho> * ((1 + 1 / 2 ^ 53) / (1 - 1 / 2 ^ 53)) * (1 + 1 / 2 ^ 53)"
      using c_hi by (intro mult_right_mono) simp_all
    also have "\<dots> = \<rho> * ((1 + 1 / 2 ^ 53) / (1 - 1 / 2 ^ 53) * (1 + 1 / 2 ^ 53))" by simp
    also have "\<dots> \<le> \<rho> * (1 + 4 / 2 ^ 53)"
      using \<rho>(2) by (intro mult_left_mono) simp_all
    finally show ?thesis using x(2) by linarith
  qed
  have x_lo: "\<rho> * (1 - 4 / 2 ^ 53) \<le> x"
  proof -
    have "\<rho> * (1 - 4 / 2 ^ 53) \<le> \<rho> * ((1 - 1 / 2 ^ 53) / (1 + 1 / 2 ^ 53) * (1 - 1 / 2 ^ 53))"
      using \<rho>(2) by (intro mult_left_mono) simp_all
    also have "\<dots> = \<rho> * ((1 - 1 / 2 ^ 53) / (1 + 1 / 2 ^ 53)) * (1 - 1 / 2 ^ 53)" by simp
    also have "\<dots> \<le> c * (1 - 1 / 2 ^ 53)"
      using c_lo by (intro mult_right_mono) simp_all
    finally show ?thesis using x(1) by linarith
  qed
  have "\<rho> \<le> 2 ^ 207"
  proof -
    have "a / b \<le> 2 ^ 95 / (1 / 2 ^ 106)"
      using a b ab by (intro frac_le) simp_all
    then show ?thesis by (simp add: \<rho>(1))
  qed
  moreover have "\<rho> * (1 + 4 / 2 ^ 53) \<le> \<rho> * 2" using \<rho>(2) by (intro mult_left_mono) simp_all
  moreover have "0 < x"
  proof -
    have "0 < c * (1 - 1 / 2 ^ 53)" using cpos by simp
    with x(1) show ?thesis by linarith
  qed
  ultimately have "\<bar>x\<bar> < 2 ^ 209" using x_hi by simp
  then have r3: "rnd c = Fin x" unfolding x_def by (rule rnd_finite) simp
  have "travel_time_ratio (Fin t) (Fin tf) = Fin x"
    using h2pos by (simp add: travel_time_ratio_def hours_def r1 [unfolded a_def] r2 [unfolded b_def]
        r3 [unfolded c_def])
  then show thesis using x_lo x_hi unfolding \<rho>_def by (rule that)
qed

lemma Tratio_close:
  assumes tf: "1 / 2 ^ 100 \<le> tf" and lt: "tf < t" and t: "t \<le> 2 ^ 100"
    and ratio: "t / tf \<le> 10 ^ 20"
  obtains r where "Number_toFixed 3 (travel_time_ratio (Fin t) (Fin tf)) = Fin r"
    and "\<bar>r - t / tf\<bar> \<le> 1 / 2000 + (t / tf) / 2 ^ 50"
proof -
  define \<rho> where "\<rho> = t / tf"
  have pos: "0 < tf" using tf by (smt (verit) divide_pos_pos zero_less_power)
  have \<rho>: "1 \<le> \<rho>" "\<rho> \<le> 10 ^ 20" using pos lt ratio by (simp_all add: \<rho>_def)
  obtain x where x: "travel_time_ratio (Fin t) (Fin tf) = Fin x"
    and x_lo: "\<rho> * (1 - 4 / 2 ^ 53) \<le> x" and x_hi: "x \<le> \<rho> * (1 + 4 / 2 ^ 53)"
    using ratio_close [OF tf lt t] unfolding \<rho>_def by blast
  have x1: "9 / 10 \<le> x" using x_lo \<rho>(1) by simp
  have x2: "x < toFixed_limit" using x_hi \<rho>(2) by (simp add: toFixed_limit_def)
  define y :: real where "y = of_int \<lfloor>x * 10 ^ 3 + 1/2\<rfloor> / 10 ^ 3"
  have "of_int \<lfloor>x * 10 ^ 3 + 1/2\<rfloor> \<le> x * 10 ^ 3 + 1/2"
    and "x * 10 ^ 3 + 1/2 < of_int \<lfloor>x * 10 ^ 3 + 1/2\<rfloor> + 1"
    by linarith+
  then have y: "x - 1 / 2000 \<le> y" "y \<le> x + 1 / 2000"
    by (simp_all add: y_def field_simps)
  have ny: "2 powi (- 1022) \<le> y" using tiny_le [of 1] y(1) x1 by simp
  define r where "r = nearest y"
  have r: "y * (1 - 1 / 2 ^ 53) \<le> r" "r \<le> y * (1 + 1 / 2 ^ 53)"
    unfolding r_def by (rule nearest_pos_bounds [OF ny])+
  have "0 \<le> r" and "r \<le> 2 ^ 70" using r y x1 x_hi \<rho>(2) by simp_all
  then have "\<bar>r\<bar> < 2 ^ 71" by simp
  then have "rnd y = Fin r" unfolding r_def by (rule rnd_finite) simp
  then have "Number_toFixed 3 (travel_time_ratio (Fin t) (Fin tf)) = Fin r"
    using x1 x2 by (simp add: x Number_toFixed_nonneg y_def)
  moreover have "r - \<rho> \<le> 1 / 2000 + \<rho> / 2 ^ 50" and "\<rho> - r \<le> 1 / 2000 + \<rho> / 2 ^ 50"
    using r y x_lo x_hi \<rho>(1) by simp_all
  then have "\<bar>r - \<rho>\<bar> \<le> 1 / 2000 + \<rho> / 2 ^ 50" by linarith
  ultimately show thesis unfolding \<rho>_def by (rule that)
qed

section \<open>Overflow\<close>

text \<open>A value of magnitude \<open>2^1024\<close> or more rounds to an infinity.\<close>

lemma nearest_overflow: "nearest overflow_threshold = overflow_threshold"
proof -
  have "(2::real) powi 1024 = overflow_threshold"
    using power_int_of_nat [of "2::real" 1024] by (simp only: overflow_threshold_def of_nat_numeral)
  moreover have "nearest (of_int 1 * 2 powi 1024) = of_int 1 * 2 powi 1024"
    by (rule nearest_double) simp_all
  ultimately show ?thesis by (simp only: of_int_1 mult_1)
qed

lemma rnd_overflow: "overflow_threshold \<le> x \<Longrightarrow> rnd x = PInf"
  using nearest_mono [of overflow_threshold x] by (simp add: rnd_alt nearest_overflow)

lemma pow_rn_overflow: "0 < x \<Longrightarrow> overflow_threshold \<le> x powr y \<Longrightarrow> pow_rn x y = PInf"
  by (simp add: pow_rn_def rnd_overflow)

lemma pow_rn_3_1024: "pow_rn 3 1024 = PInf"
proof -
  have "(2::real) powr 1024 \<le> 3 powr 1024" by (rule powr_mono2) simp_all
  moreover have "(2::real) powr 1024 = overflow_threshold"
    using powr_realpow [of "2::real" 1024, OF zero_less_numeral]
    by (simp only: overflow_threshold_def of_nat_numeral)
  ultimately have "overflow_threshold \<le> 3 powr 1024" by (simp only:)
  moreover have "(0::real) < 3" by simp
  ultimately show ?thesis by (intro pow_rn_overflow)
qed

section \<open>Rounding error of the returned numbers\<close>

text \<open>Rounding a positive value well inside the normal range.\<close>

lemma rnd_accurate:
  assumes "1 / 2 ^ 300 \<le> x" and "x \<le> 2 ^ 300"
  obtains y where "rnd x = Fin y" and "x * (1 - 1 / 2 ^ 53) \<le> y" and "y \<le> x * (1 + 1 / 2 ^ 53)"
proof -
  have n: "2 powi (- 1022) \<le> x" using tiny_le [of 300] assms(1) by simp
  have pos: "0 < x" using assms(1) by (smt (verit) divide_pos_pos zero_less_power)
  define y where "y = nearest x"
  have y: "x * (1 - 1 / 2 ^ 53) \<le> y" "y \<le> x * (1 + 1 / 2 ^ 53)"
    unfolding y_def by (rule nearest_pos_bounds [OF n])+
  have "0 < x * (1 - 1 / 2 ^ 53)" using pos by simp
  with y(1) have ypos: "0 < y" by linarith
  have "y \<le> x * 2" using y(2) pos by simp
  also have "\<dots> \<le> 2 ^ 300 * 2" using assms(2) by simp
  also have "\<dots> < (2::real) ^ 302" by simp
  finally have "\<bar>y\<bar> < 2 ^ 302" using ypos by simp
  then have "rnd x = Fin y" unfolding y_def by (rule rnd_finite) simp
  then show thesis using y by (rule that)
qed

text \<open>
  Printing a Number that is not negative with the digits of \<open>\<lfloor>Q * c + 1/2\<rfloor>\<close>, for
  \<open>c = 100\<close> or \<open>c = 1000\<close>, and reading the decimal back.
\<close>

lemma decimal_rounding:
  fixes Q c :: real
  assumes Q: "0 \<le> Q" "Q \<le> 2 ^ 70" and c: "1 \<le> c" "c \<le> 2 ^ 20"
  obtains k f where "k = \<lfloor>Q * c + 1/2\<rfloor>" and "0 \<le> k" and "rnd (of_int k / c) = Fin f"
    and "\<bar>of_int k / c - Q\<bar> \<le> 1 / (2 * c)"
    and "of_int k / c * (1 - 1 / 2 ^ 53) \<le> f" and "f \<le> of_int k / c * (1 + 1 / 2 ^ 53)"
proof -
  define k where "k = \<lfloor>Q * c + 1/2\<rfloor>"
  define y where "y = real_of_int k / c"
  have cpos: "0 < c" using c(1) by simp
  have "0 \<le> Q * c + 1/2" using Q(1) cpos by simp
  then have k0: "0 \<le> k" unfolding k_def by simp
  have "of_int k \<le> Q * c + 1/2" and "Q * c + 1/2 < of_int k + 1"
    unfolding k_def by linarith+
  then have "of_int k / c \<le> (Q * c + 1/2) / c" and "(Q * c - 1/2) / c \<le> of_int k / c"
    using cpos by (simp_all add: divide_right_mono)
  moreover have "(Q * c + 1/2) / c = Q + 1 / (2 * c)" and "(Q * c - 1/2) / c = Q - 1 / (2 * c)"
    using cpos by (simp_all add: field_simps)
  ultimately have "y \<le> Q + 1 / (2 * c)" and "Q - 1 / (2 * c) \<le> y"
    unfolding y_def by simp_all
  then have d: "\<bar>y - Q\<bar> \<le> 1 / (2 * c)" by linarith
  have "1 / (2 * c) \<le> 1" using c(1) by simp
  with d Q(2) have yhi: "y \<le> 2 ^ 70 + 1" by linarith
  have y0: "0 \<le> y" using k0 cpos by (simp add: y_def)
  show thesis
  proof (cases "k = 0")
    case True
    then have "y = 0" by (simp add: y_def)
    then have "rnd y = Fin 0" "y * (1 - 1 / 2 ^ 53) \<le> 0" "0 \<le> y * (1 + 1 / 2 ^ 53)"
      by (simp_all add: rnd_zero)
    with k_def k0 d show ?thesis unfolding y_def by (intro that)
  next
    case False
    with k0 have "1 \<le> k" by simp
    then have "(1::real) \<le> of_int k" by simp
    then have "1 / c \<le> y" using cpos by (simp add: y_def divide_right_mono)
    moreover have "1 / 2 ^ 20 \<le> 1 / c" using c cpos by (simp add: frac_le)
    ultimately have "1 / 2 ^ 20 \<le> y" by linarith
    then have lo: "1 / 2 ^ 300 \<le> y" by simp
    have hi: "y \<le> 2 ^ 300" using yhi by simp
    from lo hi obtain f where "rnd y = Fin f" "y * (1 - 1 / 2 ^ 53) \<le> f" "f \<le> y * (1 + 1 / 2 ^ 53)"
      by (rule rnd_accurate)
    with k_def k0 d show ?thesis unfolding y_def by (intro that)
  qed
qed

text \<open>
  The flow \<open>qpc * p\<close> and the decimal returned for it, where \<open>p\<close> is the result of
  \<^verbatim>\<open>Math.pow\<close> and \<open>P\<close> the true power.
\<close>

lemma returned_flow:
  assumes q: "0 < q" and P: "0 < P" and acc: "\<bar>p - P\<bar> \<le> P / 2 ^ 40"
    and lo: "1 / 2 ^ 100 \<le> q * p" and hi: "q * p \<le> 10 ^ 20"
  obtains Q k f where "fmul (Fin q) (Fin p) = Fin Q"
    and "q * P * (1 - 1 / 2 ^ 39) \<le> Q" and "Q \<le> q * P * (1 + 1 / 2 ^ 39)"
    and "1 / 2 ^ 101 \<le> Q" and "Q \<le> 2 ^ 67"
    and "Number_toFixed 2 (Fin Q) = Fin f" and "rnd (of_int k / 100) = Fin f" and "0 \<le> k"
    and "\<bar>of_int k / 100 - q * P\<bar> \<le> 1 / 200 + q * P / 2 ^ 39"
    and "of_int k / 100 * (1 - 1 / 2 ^ 53) \<le> f" and "f \<le> of_int k / 100 * (1 + 1 / 2 ^ 53)"
proof -
  define F G where "F = q * p" and "G = q * P"
  have G: "0 < G" using q P by (simp add: G_def)
  have "F - G = q * (p - P)" by (simp add: F_def G_def algebra_simps)
  then have "\<bar>F - G\<bar> = q * \<bar>p - P\<bar>" using q by (simp add: abs_mult)
  also have "\<dots> \<le> q * (P / 2 ^ 40)" using acc q by (intro mult_left_mono) simp_all
  also have "\<dots> = G / 2 ^ 40" by (simp add: G_def)
  finally have "\<bar>F - G\<bar> \<le> G / 2 ^ 40" .
  then have FG: "F - G \<le> G / 2 ^ 40" "G - F \<le> G / 2 ^ 40" by linarith+
  have F: "1 / 2 ^ 100 \<le> F" "F \<le> 10 ^ 20" using lo hi by (simp_all add: F_def)
  then have "1 / 2 ^ 300 \<le> F" and "F \<le> 2 ^ 300" by simp_all
  then obtain Q where Q: "rnd F = Fin Q" "F * (1 - 1 / 2 ^ 53) \<le> Q" "Q \<le> F * (1 + 1 / 2 ^ 53)"
    by (rule rnd_accurate)
  have Q1: "G * (1 - 1 / 2 ^ 39) \<le> Q" and Q2: "Q \<le> G * (1 + 1 / 2 ^ 39)"
    using Q(2,3) FG G by simp_all
  have Q3: "1 / 2 ^ 101 \<le> Q" and Q4: "Q \<le> 2 ^ 67" using Q(2,3) F by simp_all
  have Q0: "0 \<le> Q" using Q3 by simp
  have "Q \<le> 2 ^ 70" using Q4 by simp
  with Q0 obtain k f where k: "k = \<lfloor>Q * 100 + 1/2\<rfloor>" "0 \<le> k" "rnd (of_int k / 100) = Fin f"
    "\<bar>of_int k / 100 - Q\<bar> \<le> 1 / (2 * 100)"
    "of_int k / 100 * (1 - 1 / 2 ^ 53) \<le> f" "f \<le> of_int k / 100 * (1 + 1 / 2 ^ 53)"
    by (rule decimal_rounding [where c = 100]) simp_all
  have "\<not> toFixed_limit \<le> Q" using Q4 by (simp add: toFixed_limit_def)
  then have "Number_toFixed 2 (Fin Q) = Fin f"
    using k(1,3) by (simp add: Number_toFixed_nonneg [OF Q0])
  moreover have "\<bar>of_int k / 100 - G\<bar> \<le> 1 / 200 + G / 2 ^ 39"
  proof -
    have "of_int k / 100 - Q \<le> 1 / 200" and "Q - of_int k / 100 \<le> 1 / 200"
      using k(4) by linarith+
    then have "of_int k / 100 - G \<le> 1 / 200 + G / 2 ^ 39"
      and "G - of_int k / 100 \<le> 1 / 200 + G / 2 ^ 39"
      using Q1 Q2 by simp_all
    then show ?thesis by linarith
  qed
  moreover have "fmul (Fin q) (Fin p) = Fin Q" using Q(1) by (simp add: F_def)
  ultimately show thesis
    using Q1 Q2 Q3 Q4 k(2,3,5,6) unfolding G_def by (intro that)
qed

text \<open>The vehicle count from the flow \<open>Q\<close> and the hours of \<open>t\<close> minutes.\<close>

lemma returned_count:
  assumes G: "0 < G" and Q: "G * (1 - 1 / 2 ^ 39) \<le> Q" "Q \<le> G * (1 + 1 / 2 ^ 39)"
    and Qr: "1 / 2 ^ 101 \<le> Q" "Q \<le> 2 ^ 67" and t: "1 / 2 ^ 100 \<le> t" "t \<le> 2 ^ 100"
  obtains N n where "fmul (Fin Q) (hours (Fin t)) = Fin N" and "Math_round (Fin N) = Fin (of_int n)"
    and "\<bar>of_int n - G * (t / 60)\<bar> \<le> 1/2 + G * (t / 60) / 2 ^ 38"
proof -
  define H where "H = t / 60"
  have H: "1 / 2 ^ 106 \<le> H" "H \<le> 2 ^ 95" using t by (simp_all add: H_def)
  then have "1 / 2 ^ 300 \<le> H" and "H \<le> 2 ^ 300" by simp_all
  then obtain h where h: "rnd H = Fin h" "H * (1 - 1 / 2 ^ 53) \<le> h" "h \<le> H * (1 + 1 / 2 ^ 53)"
    by (rule rnd_accurate)
  have h3: "1 / 2 ^ 107 \<le> h" "h \<le> 2 ^ 96" using h(2,3) H by simp_all
  have Hpos: "0 < H" using H(1) by (smt (verit) divide_pos_pos zero_less_power)
  define W where "W = G * H"
  have W: "0 < W" using G Hpos by (simp add: W_def)
  have lo: "1 / 2 ^ 101 * (1 / 2 ^ 107) \<le> Q * h"
    using Qr(1) h3(1) by (intro mult_mono) simp_all
  have hi: "Q * h \<le> 2 ^ 67 * 2 ^ 96"
    using Qr h3 by (intro mult_mono) simp_all
  have "1 / 2 ^ 300 \<le> Q * h" and "Q * h \<le> 2 ^ 300" using lo hi by simp_all
  then obtain N where N: "rnd (Q * h) = Fin N" "Q * h * (1 - 1 / 2 ^ 53) \<le> N"
    "N \<le> Q * h * (1 + 1 / 2 ^ 53)"
    by (rule rnd_accurate)
  have "Q * h \<le> G * (1 + 1 / 2 ^ 39) * (H * (1 + 1 / 2 ^ 53))"
    using Q(2) h(3) Qr(1) h3(1) by (intro mult_mono) simp_all
  also have "\<dots> = W * ((1 + 1 / 2 ^ 39) * (1 + 1 / 2 ^ 53))" by (simp add: W_def)
  finally have up: "Q * h \<le> W * ((1 + 1 / 2 ^ 39) * (1 + 1 / 2 ^ 53))" .
  have "G * (1 - 1 / 2 ^ 39) * (H * (1 - 1 / 2 ^ 53)) \<le> Q * h"
    using Q(1) h(2) G Hpos Qr(1) by (intro mult_mono) simp_all
  moreover have "G * (1 - 1 / 2 ^ 39) * (H * (1 - 1 / 2 ^ 53)) =
      W * ((1 - 1 / 2 ^ 39) * (1 - 1 / 2 ^ 53))" by (simp add: W_def)
  ultimately have dn: "W * ((1 - 1 / 2 ^ 39) * (1 - 1 / 2 ^ 53)) \<le> Q * h" by simp
  define n where "n = \<lfloor>N + 1/2\<rfloor>"
  have "of_int n \<le> N + 1/2" and "N + 1/2 < of_int n + 1" unfolding n_def by linarith+
  then have "of_int n - W \<le> 1/2 + W / 2 ^ 38" and "W - of_int n \<le> 1/2 + W / 2 ^ 38"
    using N(2,3) up dn W by simp_all
  then have "\<bar>of_int n - W\<bar> \<le> 1/2 + W / 2 ^ 38" by linarith
  moreover have "fmul (Fin Q) (hours (Fin t)) = Fin N"
    using h(1) N(1) by (simp add: hours_def H_def)
  moreover have "Math_round (Fin N) = Fin (of_int n)" by (simp add: Math_round_def n_def)
  ultimately show thesis unfolding W_def H_def by (intro that)
qed

text \<open>The returned ratio, with the decimal it is read from.\<close>

lemma returned_ratio:
  assumes tf: "1 / 2 ^ 100 \<le> tf" and lt: "tf < t" and t: "t \<le> 2 ^ 100"
    and ratio: "t / tf \<le> 10 ^ 20"
  obtains m r where "Number_toFixed 3 (travel_time_ratio (Fin t) (Fin tf)) = Fin r"
    and "rnd (of_int m / 1000) = Fin r"
    and "\<bar>of_int m / 1000 - t / tf\<bar> \<le> 1 / 2000 + (t / tf) / 2 ^ 51"
proof -
  define \<rho> where "\<rho> = t / tf"
  have pos: "0 < tf" using tf by (smt (verit) divide_pos_pos zero_less_power)
  have \<rho>: "1 \<le> \<rho>" "\<rho> \<le> 10 ^ 20" using pos lt ratio by (simp_all add: \<rho>_def)
  obtain x where x: "travel_time_ratio (Fin t) (Fin tf) = Fin x"
    and x_lo: "\<rho> * (1 - 4 / 2 ^ 53) \<le> x" and x_hi: "x \<le> \<rho> * (1 + 4 / 2 ^ 53)"
    using ratio_close [OF tf lt t] unfolding \<rho>_def by blast
  have x0: "0 \<le> x" using x_lo \<rho>(1) by simp
  have x1: "x \<le> 2 ^ 70" using x_hi \<rho>(2) by simp
  have x2: "x < toFixed_limit" using x_hi \<rho>(2) by (simp add: toFixed_limit_def)
  from x0 x1 obtain m r where m: "m = \<lfloor>x * 1000 + 1/2\<rfloor>" "rnd (of_int m / 1000) = Fin r"
    "\<bar>of_int m / 1000 - x\<bar> \<le> 1 / (2 * 1000)"
    by (rule decimal_rounding [where c = 1000]) simp_all
  have "Number_toFixed 3 (travel_time_ratio (Fin t) (Fin tf)) = Fin r"
    using m(1,2) x2 by (simp add: x Number_toFixed_nonneg [OF x0])
  moreover have "\<bar>of_int m / 1000 - \<rho>\<bar> \<le> 1 / 2000 + \<rho> / 2 ^ 51"
  proof -
    have "of_int m / 1000 - x \<le> 1 / 2000" and "x - of_int m / 1000 \<le> 1 / 2000"
      using m(3) by linarith+
    then have "of_int m / 1000 - \<rho> \<le> 1 / 2000 + \<rho> / 2 ^ 51"
      and "\<rho> - of_int m / 1000 \<le> 1 / 2000 + \<rho> / 2 ^ 51"
      using x_lo x_hi by simp_all
    then show ?thesis by linarith
  qed
  ultimately show thesis using m(2) unfolding \<rho>_def by (intro that)
qed

text \<open>The flow when base and exponent are positive finite values.\<close>

lemma bpr_flow_finite:
  assumes "bpr_base T Tf a = Fin B" and "0 < B" and "fdiv (Fin 1) \<beta> = Fin E" and "0 < E"
  shows "bpr_flow approx T Tf q a \<beta> = fmul q (approx B E)"
  using assms by (simp add: bpr_flow_def)

section \<open>Scenario 2 once more, and a travel time of 90 minutes\<close>

lemma fields_scenario_2:
  "fields scenario_2 = [JNum (Fin 60), JNum (Fin 30), JNum (Fin 5), JNum (Fin 1000),
                         JNum (Fin double_0_15), JNum (Fin 4)]"
  by (simp add: scenario_2_def fields_request)

lemma pow_rn_scenario_2_relative:
  "\<bar>7236639856356001 / 2 ^ 52 - scenario_2_base powr (1/4)\<bar> \<le> scenario_2_base powr (1/4) / 2 ^ 40"
proof -
  have "1 / 2 ^ 40 \<le> scenario_2_base powr (1/4) / 2 ^ 40"
    using root_scenario_2(1) by simp
  with pow_rn_scenario_2_accuracy show ?thesis by linarith
qed









section \<open>Runs of the server\<close>



section \<open>The claims\<close>

text \<open>
  C1, as stated, fails: the three numbers need not be finite. With \<open>T_min = 120\<close>,
  \<open>Tff_min = 30\<close>, \<open>qpc = 1000\<close>, \<open>alpha = 1\<close> and \<open>beta = 1/1024\<close> (the Number
  \<^verbatim>\<open>0.0009765625\<close>) the base is 3 and the exponent is 1024; \<open>3^1024\<close> is above every
  finite binary64 value, so \<^verbatim>\<open>Math.pow\<close> gives \<open>+Infinity\<close>, and the handler returns
  \<open>+Infinity\<close> for \<open>q_veh_per_h\<close> and for \<open>N_veh\<close>: neither a number with two
  decimals nor an integer.
\<close>

theorem small_beta_overflow:
  "bpr_base (Fin 120) (Fin 30) (Fin 1) = Fin 3
   \<and> fdiv (Fin 1) (Fin (1 / 1024)) = Fin 1024
   \<and> estimate pow_rn (request (Fin 120) (Fin 30) (Fin 5) (Fin 1000) (Fin 1) (Fin (1 / 1024))) =
       \<lparr>status = 200,
        body = [(''q_veh_per_h'', JNum PInf), (''N_veh'', JNum PInf), (''Tratio'', JNum (Fin 4))]\<rparr>"
  by (simp add: estimate_numbers [OF fields_request] eval_simps pow_rn_3_1024)

text \<open>
  C1, amended. A body whose six fields are positive finite Numbers with
  \<open>T_min > Tff_min\<close> is answered with status 200 and the three properties
  \<open>q_veh_per_h\<close>, \<open>N_veh\<close> and \<open>Tratio\<close>: \<^verbatim>\<open>Number(q.toFixed(2))\<close> of the flow
  \<open>q = qpc * Math.pow((Tratio - 1) / alpha, 1 / beta)\<close>, \<^verbatim>\<open>Math.round\<close> of the
  unrounded flow times the observed hours, and \<^verbatim>\<open>Number(Tratio.toFixed(3))\<close> for
  \<open>Tratio = T_h / Tff_h\<close>, every operation being the binary64 one. These can be
  infinite or NaN; \<open>N_veh\<close> is an integer whenever it is finite.

  Inside the following range the three numbers are what the formulas say, up to
  rounding. Let the base \<open>B\<close> and the exponent \<open>E\<close> that the handler reaches (binary64
  values; when \<open>Tratio\<close> is close to 1 the base need not be close to the exact
  \<open>(T_min / Tff_min - 1) / alpha\<close>) be positive and finite, let \<^verbatim>\<open>Math.pow\<close> return
  for them a \<open>p\<close> within the relative error \<open>2^-40\<close> of the true power \<open>B^E\<close>, and let
  \<open>2^-100 <= Tff_min\<close>, \<open>T_min <= 2^100\<close>, \<open>T_min / Tff_min <= 10^20\<close> and
  \<open>2^-100 <= qpc * p <= 10^20\<close>. Then, with
  \<open>F = qpc * B^E\<close>: \<open>q_veh_per_h\<close> is the binary64 value of a decimal \<open>k / 100\<close>
  that is within \<open>0.005 + F * 2^-39\<close> of \<open>F\<close>; \<open>N_veh\<close> is an integer within
  \<open>0.5 + F * (T_min / 60) * 2^-38\<close> of \<open>F * (T_min / 60)\<close>; and \<open>Tratio\<close> is the
  binary64 value of a decimal \<open>m / 1000\<close> that is within
  \<open>0.0005 + (T_min / Tff_min) * 2^-51\<close> of \<open>T_min / Tff_min\<close>.
\<close>

theorem estimate_formula:
  assumes "fields b = [JNum (Fin t), JNum (Fin tf), JNum (Fin l), JNum (Fin q), JNum (Fin a),
                       JNum (Fin \<beta>)]"
    and "0 < t" and "0 < tf" and "0 < l" and "0 < q" and "0 < a" and "0 < \<beta>"
    and "tf < t"
  shows "estimate approx b =
           \<lparr>status = 200,
            body = [(''q_veh_per_h'',
                       JNum (Number_toFixed 2 (bpr_flow approx (Fin t) (Fin tf) (Fin q) (Fin a) (Fin \<beta>)))),
                    (''N_veh'',
                       JNum (Math_round (fmul (bpr_flow approx (Fin t) (Fin tf) (Fin q) (Fin a) (Fin \<beta>))
                                           (hours (Fin t))))),
                    (''Tratio'', JNum (Number_toFixed 3 (travel_time_ratio (Fin t) (Fin tf))))]\<rparr>
         \<and> (\<forall>r. Math_round (fmul (bpr_flow approx (Fin t) (Fin tf) (Fin q) (Fin a) (Fin \<beta>))
                               (hours (Fin t))) = Fin r \<longrightarrow> r \<in> \<int>)
         \<and> (\<forall>B E p.
               bpr_base (Fin t) (Fin tf) (Fin a) = Fin B \<and> 0 < B
               \<and> fdiv (Fin 1) (Fin \<beta>) = Fin E \<and> 0 < E
               \<and> approx B E = Fin p \<and> \<bar>p - B powr E\<bar> \<le> B powr E / 2 ^ 40
               \<and> 1 / 2 ^ 100 \<le> tf \<and> t \<le> 2 ^ 100 \<and> t / tf \<le> 10 ^ 20
               \<and> 1 / 2 ^ 100 \<le> q * p \<and> q * p \<le> 10 ^ 20
             \<longrightarrow> (\<exists>k n m f r.
                    body (estimate approx b) =
                      [(''q_veh_per_h'', JNum (Fin f)), (''N_veh'', JNum (Fin (of_int n))),
                       (''Tratio'', JNum (Fin r))]
                    \<and> rnd (of_int k / 100) = Fin f
                    \<and> \<bar>of_int k / 100 - q * B powr E\<bar> \<le> 1 / 200 + q * B powr E / 2 ^ 39
                    \<and> \<bar>of_int n - q * B powr E * (t / 60)\<bar>
                         \<le> 1 / 2 + q * B powr E * (t / 60) / 2 ^ 38
                    \<and> rnd (of_int m / 1000) = Fin r
                    \<and> \<bar>of_int m / 1000 - t / tf\<bar> \<le> 1 / 2000 + (t / tf) / 2 ^ 51))"
proof -
  have "\<not> flt (bpr_base (Fin t) (Fin tf) (Fin a)) (Fin 0)"
    using assms by (intro base_not_negative) simp_all
  then have e: "estimate approx b =
           \<lparr>status = 200,
            body = [(''q_veh_per_h'',
                       JNum (Number_toFixed 2 (bpr_flow approx (Fin t) (Fin tf) (Fin q) (Fin a) (Fin \<beta>)))),
                    (''N_veh'',
                       JNum (Math_round (fmul (bpr_flow approx (Fin t) (Fin tf) (Fin q) (Fin a) (Fin \<beta>))
                                           (hours (Fin t))))),
                    (''Tratio'', JNum (Number_toFixed 3 (travel_time_ratio (Fin t) (Fin tf))))]\<rparr>"
    using assms by (simp add: estimate_numbers [OF assms(1)] computed_def)
  have "\<exists>k n m f r.
          body (estimate approx b) =
            [(''q_veh_per_h'', JNum (Fin f)), (''N_veh'', JNum (Fin (of_int n))),
             (''Tratio'', JNum (Fin r))]
          \<and> rnd (of_int k / 100) = Fin f
          \<and> \<bar>of_int k / 100 - q * B powr E\<bar> \<le> 1 / 200 + q * B powr E / 2 ^ 39
          \<and> \<bar>of_int n - q * B powr E * (t / 60)\<bar> \<le> 1 / 2 + q * B powr E * (t / 60) / 2 ^ 38
          \<and> rnd (of_int m / 1000) = Fin r
          \<and> \<bar>of_int m / 1000 - t / tf\<bar> \<le> 1 / 2000 + (t / tf) / 2 ^ 51"
    if B: "bpr_base (Fin t) (Fin tf) (Fin a) = Fin B" "0 < B"
      and E: "fdiv (Fin 1) (Fin \<beta>) = Fin E" "0 < E"
      and p: "approx B E = Fin p" "\<bar>p - B powr E\<bar> \<le> B powr E / 2 ^ 40"
      and r: "1 / 2 ^ 100 \<le> tf" "t \<le> 2 ^ 100" "t / tf \<le> 10 ^ 20"
      and f: "1 / 2 ^ 100 \<le> q * p" "q * p \<le> 10 ^ 20"
    for B E p
  proof -
    have P: "0 < B powr E" using B(2) by simp
    from assms(5) P p(2) f obtain Q k f where Q: "fmul (Fin q) (Fin p) = Fin Q"
      and Qb: "q * B powr E * (1 - 1 / 2 ^ 39) \<le> Q" "Q \<le> q * B powr E * (1 + 1 / 2 ^ 39)"
      and Qr: "1 / 2 ^ 101 \<le> Q" "Q \<le> 2 ^ 67"
      and k: "Number_toFixed 2 (Fin Q) = Fin f" "rnd (of_int k / 100) = Fin f"
        "\<bar>of_int k / 100 - q * B powr E\<bar> \<le> 1 / 200 + q * B powr E / 2 ^ 39"
      by (rule returned_flow)
    have G: "0 < q * B powr E" using assms(5) P by simp
    have t1: "1 / 2 ^ 100 \<le> t" using r(1) assms(8) by simp
    from G Qb Qr t1 r(2) obtain N n where N: "fmul (Fin Q) (hours (Fin t)) = Fin N"
      "Math_round (Fin N) = Fin (of_int n)"
      "\<bar>of_int n - q * B powr E * (t / 60)\<bar> \<le> 1/2 + q * B powr E * (t / 60) / 2 ^ 38"
      by (rule returned_count)
    from r(1) assms(8) r(2,3) obtain m r where m:
      "Number_toFixed 3 (travel_time_ratio (Fin t) (Fin tf)) = Fin r"
      "rnd (of_int m / 1000) = Fin r"
      "\<bar>of_int m / 1000 - t / tf\<bar> \<le> 1 / 2000 + (t / tf) / 2 ^ 51"
      by (rule returned_ratio)
    have fl: "bpr_flow approx (Fin t) (Fin tf) (Fin q) (Fin a) (Fin \<beta>) = Fin Q"
      using bpr_flow_finite [OF B E, of approx "Fin q"] Q by (simp add: p(1))
    have "body (estimate approx b) =
            [(''q_veh_per_h'', JNum (Fin f)), (''N_veh'', JNum (Fin (of_int n))),
             (''Tratio'', JNum (Fin r))]"
      unfolding e by (simp add: fl k(1) N(1,2) m(1))
    with k(2,3) N(3) m(2,3) show ?thesis by blast
  qed
  moreover have "\<forall>r. Math_round (fmul (bpr_flow approx (Fin t) (Fin tf) (Fin q) (Fin a) (Fin \<beta>))
                         (hours (Fin t))) = Fin r \<longrightarrow> r \<in> \<int>"
    by (simp add: Math_round_integer)
  ultimately show ?thesis using e by blast
qed

text \<open>
  Scenario 2 is inside that range: base \<open>6.666666666666667\<close>, exponent \<open>0.25\<close>, the
  power \<open>1.6068568378\<close>, the decimals \<open>160686 / 100\<close> and \<open>2000 / 1000\<close>.
\<close>

theorem estimate_formula_witness:
  "body (estimate pow_rn scenario_2) =
     [(''q_veh_per_h'', JNum (Fin (7067045016832573 / 2 ^ 42))), (''N_veh'', JNum (Fin 1607)),
      (''Tratio'', JNum (Fin 2))]
   \<and> (\<exists>k n m. rnd (of_int k / 100) = Fin (7067045016832573 / 2 ^ 42)
         \<and> \<bar>of_int k / 100 - 1000 * scenario_2_base powr (1/4)\<bar>
              \<le> 1 / 200 + 1000 * scenario_2_base powr (1/4) / 2 ^ 39
         \<and> real_of_int n = 1607
         \<and> \<bar>of_int n - 1000 * scenario_2_base powr (1/4) * (60 / 60)\<bar>
              \<le> 1 / 2 + 1000 * scenario_2_base powr (1/4) * (60 / 60) / 2 ^ 38
         \<and> rnd (of_int m / 1000) = Fin 2
         \<and> \<bar>of_int m / 1000 - 60 / 30 :: real\<bar> \<le> 1 / 2000 + (60 / 30) / 2 ^ 51)"
proof -
  have pos: "0 < double_0_15" "0 < scenario_2_base"
    by (simp_all add: double_0_15_def scenario_2_base_def)
  have p: "1 / 2 ^ 100 \<le> 1000 * (7236639856356001 / 2 ^ 52 :: real)"
    "1000 * (7236639856356001 / 2 ^ 52 :: real) \<le> 10 ^ 20"
    by simp_all
  have b: "body (estimate pow_rn scenario_2) =
     [(''q_veh_per_h'', JNum (Fin (7067045016832573 / 2 ^ 42))), (''N_veh'', JNum (Fin 1607)),
      (''Tratio'', JNum (Fin 2))]"
    using scenario_2_general [of pow_rn, OF pow_rn_scenario_2 pow_rn_scenario_2_accuracy] by simp
  have T: "\<forall>B E p.
               bpr_base (Fin 60) (Fin 30) (Fin double_0_15) = Fin B \<and> 0 < B
               \<and> fdiv (Fin 1) (Fin 4) = Fin E \<and> 0 < E
               \<and> pow_rn B E = Fin p \<and> \<bar>p - B powr E\<bar> \<le> B powr E / 2 ^ 40
               \<and> 1 / 2 ^ 100 \<le> (30::real) \<and> (60::real) \<le> 2 ^ 100 \<and> (60 / 30 :: real) \<le> 10 ^ 20
               \<and> 1 / 2 ^ 100 \<le> 1000 * p \<and> 1000 * p \<le> 10 ^ 20
             \<longrightarrow> (\<exists>k n m f r.
                    body (estimate pow_rn scenario_2) =
                      [(''q_veh_per_h'', JNum (Fin f)), (''N_veh'', JNum (Fin (of_int n))),
                       (''Tratio'', JNum (Fin r))]
                    \<and> rnd (of_int k / 100) = Fin f
                    \<and> \<bar>of_int k / 100 - 1000 * B powr E\<bar> \<le> 1 / 200 + 1000 * B powr E / 2 ^ 39
                    \<and> \<bar>of_int n - 1000 * B powr E * (60 / 60)\<bar>
                         \<le> 1 / 2 + 1000 * B powr E * (60 / 60) / 2 ^ 38
                    \<and> rnd (of_int m / 1000) = Fin r
                    \<and> \<bar>of_int m / 1000 - 60 / 30 :: real\<bar> \<le> 1 / 2000 + (60 / 30) / 2 ^ 51)"
    by (rule conjunct2 [OF conjunct2 [OF estimate_formula [OF fields_scenario_2]]])
       (simp_all add: pos)
  have H: "bpr_base (Fin 60) (Fin 30) (Fin double_0_15) = Fin scenario_2_base \<and> 0 < scenario_2_base
      \<and> fdiv (Fin 1) (Fin 4) = Fin (1/4) \<and> 0 < (1/4 :: real)
      \<and> pow_rn scenario_2_base (1/4) = Fin (7236639856356001 / 2 ^ 52)
      \<and> \<bar>7236639856356001 / 2 ^ 52 - scenario_2_base powr (1/4)\<bar> \<le> scenario_2_base powr (1/4) / 2 ^ 40
      \<and> 1 / 2 ^ 100 \<le> (30::real) \<and> (60::real) \<le> 2 ^ 100 \<and> (60 / 30 :: real) \<le> 10 ^ 20
      \<and> 1 / 2 ^ 100 \<le> 1000 * (7236639856356001 / 2 ^ 52 :: real)
      \<and> 1000 * (7236639856356001 / 2 ^ 52 :: real) \<le> 10 ^ 20"
    using pow_rn_scenario_2_relative
    by (simp add: base_scenario_2 pos rnd_quarter pow_rn_scenario_2)
  note T [rule_format, OF H]
  then obtain k n m f r where
    "[(''q_veh_per_h'', JNum (Fin (7067045016832573 / 2 ^ 42))), (''N_veh'', JNum (Fin 1607)),
      (''Tratio'', JNum (Fin 2))] =
       [(''q_veh_per_h'', JNum (Fin f)), (''N_veh'', JNum (Fin (real_of_int n))),
        (''Tratio'', JNum (Fin r))]"
    and k: "rnd (of_int k / 100) = Fin f"
      "\<bar>of_int k / 100 - 1000 * scenario_2_base powr (1/4)\<bar>
               \<le> 1 / 200 + 1000 * scenario_2_base powr (1/4) / 2 ^ 39"
    and n: "\<bar>of_int n - 1000 * scenario_2_base powr (1/4) * (60 / 60)\<bar>
               \<le> 1 / 2 + 1000 * scenario_2_base powr (1/4) * (60 / 60) / 2 ^ 38"
    and m: "rnd (of_int m / 1000) = Fin r"
      "\<bar>of_int m / 1000 - 60 / 30 :: real\<bar> \<le> 1 / 2000 + (60 / 30) / 2 ^ 51"
    unfolding b by blast
  then have "f = 7067045016832573 / 2 ^ 42" and "real_of_int n = 1607" and "r = 2"
    by simp_all
  with k n m b show ?thesis by blast
qed

text \<open>
  C2. A body whose six fields are positive Numbers with \<open>T_min <= Tff_min\<close> is answered
  with status 200, flow 0, vehicle count 0 and the free-flow note, whatever the values
  of \<open>alpha\<close>, \<open>beta\<close>, \<open>qpc\<close> and \<open>L_km\<close>.
\<close>

theorem free_flow_exact:
  assumes "fields b = [JNum T, JNum Tf, JNum L, JNum q, JNum a, JNum \<beta>]"
    and "flt (Fin 0) T" and "flt (Fin 0) Tf" and "flt (Fin 0) L" and "flt (Fin 0) q"
    and "flt (Fin 0) a" and "flt (Fin 0) \<beta>"
    and "fle T Tf"
  shows "estimate approx b =
           \<lparr>status = 200,
            body = [(''q_veh_per_h'', JNum (Fin 0)), (''N_veh'', JNum (Fin 0)),
                    (''note'', JStr ''Free flow or better than free flow.'')]\<rparr>"
  using assms by (simp add: estimate_numbers [OF assms(1)] flt_zero_not_fle free_flow_def)

theorem free_flow_exact_witness:
  "estimate pow_rn (request (Fin 30) (Fin 30) (Fin 5) (Fin 1000) (Fin double_0_15) (Fin 4)) =
     \<lparr>status = 200,
      body = [(''q_veh_per_h'', JNum (Fin 0)), (''N_veh'', JNum (Fin 0)),
              (''note'', JStr ''Free flow or better than free flow.'')]\<rparr>"
  by (rule free_flow_exact [OF fields_request]) (simp_all add: double_0_15_def)

text \<open>
  C3, as stated, fails: the check is \<^verbatim>\<open>typeof v !== "number" || v <= 0\<close>, and
  \<open>+Infinity\<close> (which \<^verbatim>\<open>JSON.parse\<close> yields for \<^verbatim>\<open>1e999\<close>) is a Number that is not
  \<open><= 0\<close>. A request with \<open>L_km = +Infinity\<close> gets a computed result.
\<close>

theorem infinite_field_accepted:
  "estimate pow_rn (request (Fin 120) (Fin 60) PInf (Fin 1000) (Fin 1) (Fin 1)) =
     \<lparr>status = 200,
      body = [(''q_veh_per_h'', JNum (Fin 1000)), (''N_veh'', JNum (Fin 2000)),
              (''Tratio'', JNum (Fin 2))]\<rparr>
   \<and> estimate pow_rn (request (Fin 120) (Fin 60) PInf (Fin 1000) (Fin 1) (Fin 1)) \<noteq>
     \<lparr>status = 400, body = [(''error'', JStr ''All fields must be positive numbers.'')]\<rparr>"
  by (simp add: example_L_infinite)

text \<open>
  C3, amended. For a body that is neither \<^verbatim>\<open>undefined\<close> nor \<^verbatim>\<open>null\<close>, the
  rejection with status 400 and the message "All fields must be positive numbers." is
  returned exactly when one of the six fields is missing or otherwise not of type
  number, or is a Number \<open><= 0\<close> (\<open>-Infinity\<close> included). NaN and \<open>+Infinity\<close> are
  of type number and are not \<open><= 0\<close>: they are not rejected.
\<close>

theorem invalid_input_iff:
  assumes "b \<noteq> JUndefined" and "b \<noteq> JNull"
  shows "(estimate approx b =
            \<lparr>status = 400, body = [(''error'', JStr ''All fields must be positive numbers.'')]\<rparr>)
         = list_ex (\<lambda>v. typeof v \<noteq> ''number'' \<or> fle (num_of v) (Fin 0)) (fields b)"
proof -
  obtain T Tf L q a \<beta> where f: "fields b = [T, Tf, L, q, a, \<beta>]"
    by (simp add: fields_def)
  have n: "(\<lambda>v. typeof v \<noteq> ''number'' \<or> fle (num_of v) (Fin 0)) = not_positive"
    by (rule ext) (simp add: not_positive_def)
  show ?thesis
    unfolding n estimate_fields [OF assms f] f
    by (simp add: invalid_input_def free_flow_def invalid_base_def computed_def)
qed

theorem invalid_input_iff_witness:
  "estimate pow_rn
     (JObj [(''T_min'', JNum (Fin 30)), (''Tff_min'', JNum (Fin 20)), (''L_km'', JNum (Fin 5)),
            (''qpc'', JNum (Fin 1000)), (''alpha'', JNum (Fin double_0_15))]) =
     \<lparr>status = 400, body = [(''error'', JStr ''All fields must be positive numbers.'')]\<rparr>
   \<and> estimate pow_rn
       (request (Fin (- 5)) (Fin 20) (Fin 5) (Fin 1000) (Fin double_0_15) (Fin 4)) =
     \<lparr>status = 400, body = [(''error'', JStr ''All fields must be positive numbers.'')]\<rparr>"
proof -
  have "JObj [(''T_min'', JNum (Fin 30)), (''Tff_min'', JNum (Fin 20)), (''L_km'', JNum (Fin 5)),
            (''qpc'', JNum (Fin 1000)), (''alpha'', JNum (Fin double_0_15))] \<noteq> JUndefined"
    and "JObj [(''T_min'', JNum (Fin 30)), (''Tff_min'', JNum (Fin 20)), (''L_km'', JNum (Fin 5)),
            (''qpc'', JNum (Fin 1000)), (''alpha'', JNum (Fin double_0_15))] \<noteq> JNull"
    and "request (Fin (- 5)) (Fin 20) (Fin 5) (Fin 1000) (Fin double_0_15) (Fin 4) \<noteq> JUndefined"
    and "request (Fin (- 5)) (Fin 20) (Fin 5) (Fin 1000) (Fin double_0_15) (Fin 4) \<noteq> JNull"
    by (simp_all add: request_def)
  then show ?thesis
    using invalid_input_iff [where approx = pow_rn]
    by (simp add: fields_def request_def)
qed

text \<open>
  C4, as stated, fails: the fourth root of \<open>6.667\<close> is \<open>1.60686\<close>, not \<open>1.60624\<close>. For
  scenario 2 the handler returns \<open>N_veh = 1607\<close> and the flow \<open>1606.86\<close> (the binary64
  value \<open>7067045016832573 / 2^42\<close>), which is more than \<open>0.6\<close> above \<open>1606.24\<close>.
\<close>

theorem scenario_2_not_1606:
  "map_of (body (estimate pow_rn scenario_2)) ''N_veh'' = Some (JNum (Fin 1607))
   \<and> map_of (body (estimate pow_rn scenario_2)) ''q_veh_per_h'' =
       Some (JNum (Fin (7067045016832573 / 2 ^ 42)))
   \<and> rnd (160686 / 100) = Fin (7067045016832573 / 2 ^ 42)
   \<and> (160624 / 100 :: real) + 6 / 10 < 7067045016832573 / 2 ^ 42"
  using scenario_2_general [of pow_rn, OF pow_rn_scenario_2 pow_rn_scenario_2_accuracy]
  by (simp add: rnd_160686)

text \<open>
  C4, amended. For the input of scenario 2 the handler reaches
  \<open>base = 6.666666666666667\<close> and returns \<open>Tratio = 2\<close>, the flow \<open>1606.86\<close> and
  \<open>N_veh = 1607\<close>, for every \<^verbatim>\<open>Math.pow\<close> whose result at this base and exponent
  \<open>0.25\<close> is within \<open>2^-40\<close> of the true fourth root.
\<close>

theorem scenario_2_result:
  assumes "approx scenario_2_base (1/4) = Fin p"
    and "\<bar>p - scenario_2_base powr (1/4)\<bar> \<le> 1 / 2 ^ 40"
  shows "bpr_base (Fin 60) (Fin 30) (Fin double_0_15) = Fin scenario_2_base
         \<and> estimate approx scenario_2 =
             \<lparr>status = 200,
              body = [(''q_veh_per_h'', JNum (Fin (7067045016832573 / 2 ^ 42))),
                      (''N_veh'', JNum (Fin 1607)), (''Tratio'', JNum (Fin 2))]\<rparr>"
  using assms by (simp add: base_scenario_2 scenario_2_general)

theorem scenario_2_result_witness:
  "estimate pow_rn scenario_2 =
     \<lparr>status = 200,
      body = [(''q_veh_per_h'', JNum (Fin (7067045016832573 / 2 ^ 42))),
              (''N_veh'', JNum (Fin 1607)), (''Tratio'', JNum (Fin 2))]\<rparr>"
  using scenario_2_result [of pow_rn, OF pow_rn_scenario_2 pow_rn_scenario_2_accuracy] by simp




text \<open>
  C6, as stated, fails in one respect: \<open>base\<close> need not be a non-negative number.
  For \<open>T_min = 1e-323\<close> and \<open>Tff_min = 5e-324\<close> both divisions by 60 underflow to
  zero, \<open>Tratio\<close> is \<open>0/0\<close>, and \<open>base\<close> is NaN, which is not \<open>>= 0\<close>; the three
  returned numbers are NaN.
\<close>

theorem base_of_underflow_is_NaN:
  "bpr_base (Fin (2 * min_subnormal)) (Fin min_subnormal) (Fin 1) = NaN
   \<and> \<not> fle (Fin 0) (bpr_base (Fin (2 * min_subnormal)) (Fin min_subnormal) (Fin 1))
   \<and> estimate pow_rn (request (Fin (2 * min_subnormal)) (Fin min_subnormal) (Fin 5) (Fin 1000)
        (Fin 1) (Fin 1)) =
       \<lparr>status = 200,
        body = [(''q_veh_per_h'', JNum NaN), (''N_veh'', JNum NaN), (''Tratio'', JNum NaN)]\<rparr>"
proof -
  have r: "travel_time_ratio (Fin (2 * min_subnormal)) (Fin min_subnormal) = NaN"
    by (simp add: travel_time_ratio_def hours_underflow)
  then have b: "bpr_base (Fin (2 * min_subnormal)) (Fin min_subnormal) (Fin 1) = NaN"
    by (simp add: bpr_base_def)
  have f: "bpr_flow pow_rn (Fin (2 * min_subnormal)) (Fin min_subnormal) (Fin 1000) (Fin 1) (Fin 1) = NaN"
    by (simp add: bpr_flow_def b rnd_one)
  show ?thesis
    using min_subnormal_pos
    by (simp add: estimate_numbers [OF fields_request] b f r computed_def Number_toFixed_def toFixed_limit_def
        Math_round_def)
qed

text \<open>
  C6, amended. For a body whose six fields are positive finite Numbers with
  \<open>T_min > Tff_min\<close>, \<open>base\<close> is never less than zero: whenever it is not NaN it is
  \<open>>= 0\<close> (\<open>+Infinity\<close> included). The test \<^verbatim>\<open>base < 0\<close> is therefore false and the rejection
  "Invalid base value, check parameters." is never returned (by
  \<open>invalid_base_unreachable\<close> it is returned for no body at all).
\<close>

theorem base_never_negative:
  assumes "fields b = [JNum (Fin t), JNum (Fin tf), JNum (Fin l), JNum (Fin q), JNum (Fin a),
                       JNum (Fin \<beta>)]"
    and "0 < t" and "0 < tf" and "0 < l" and "0 < q" and "0 < a" and "0 < \<beta>"
    and "tf < t"
  shows "\<not> flt (bpr_base (Fin t) (Fin tf) (Fin a)) (Fin 0)
         \<and> (bpr_base (Fin t) (Fin tf) (Fin a) = NaN \<or> fle (Fin 0) (bpr_base (Fin t) (Fin tf) (Fin a)))
         \<and> estimate approx b \<noteq>
             \<lparr>status = 400, body = [(''error'', JStr ''Invalid base value, check parameters.'')]\<rparr>"
proof -
  have n: "\<not> flt (bpr_base (Fin t) (Fin tf) (Fin a)) (Fin 0)"
    using assms by (intro base_not_negative) simp_all
  then have "bpr_base (Fin t) (Fin tf) (Fin a) = NaN \<or> fle (Fin 0) (bpr_base (Fin t) (Fin tf) (Fin a))"
    by (simp add: not_flt_iff)
  moreover have "estimate approx b \<noteq>
      \<lparr>status = 400, body = [(''error'', JStr ''Invalid base value, check parameters.'')]\<rparr>"
    using assms n by (simp add: estimate_numbers [OF assms(1)] computed_def)
  ultimately show ?thesis using n by simp
qed

theorem base_never_negative_witness:
  "bpr_base (Fin 120) (Fin 60) (Fin 1) = Fin 1
   \<and> estimate pow_rn (request (Fin 120) (Fin 60) (Fin 5) (Fin 1000) (Fin 1) (Fin 1)) \<noteq>
       \<lparr>status = 400, body = [(''error'', JStr ''Invalid base value, check parameters.'')]\<rparr>"
  using base_never_negative [OF fields_request, of 120 60 5 1000 1 1 pow_rn]
  by (simp add: eval_simps)

text \<open>
  C7, as stated, fails: the handler divides both times by 60 before it forms the ratio,
  and in binary64 the two roundings do not cancel. For \<open>T_min = 57\<close> and
  \<open>Tff_min = 48\<close> the quotient \<open>57/48\<close> is \<open>1.1875\<close>, which \<^verbatim>\<open>toFixed(3)\<close> prints as
  \<open>1.188\<close>, but \<open>(57/60)/(48/60)\<close> is \<open>1.1874999999999998\<close> and the handler returns
  \<open>1.187\<close> (the two results below are the binary64 values of \<open>1.187\<close> and
  \<open>1.188\<close>). For \<open>T_min = 1e-323\<close> and \<open>Tff_min = 5e-324\<close> the handler returns NaN
  where \<open>T_min / Tff_min\<close> is 2.
\<close>

theorem Tratio_57_48:
  "map_of (body (estimate pow_rn (request (Fin 57) (Fin 48) (Fin 5) (Fin 1000) (Fin 1) (Fin 1))))
      ''Tratio'' = Some (JNum (Fin (5345772757688779 / 2 ^ 52)))
   \<and> Number_toFixed 3 (fdiv (Fin 57) (Fin 48)) = Fin (5350276357316149 / 2 ^ 52)
   \<and> rnd (1187 / 1000) = Fin (5345772757688779 / 2 ^ 52)
   \<and> rnd (1188 / 1000) = Fin (5350276357316149 / 2 ^ 52)
   \<and> map_of (body (estimate pow_rn
        (request (Fin (2 * min_subnormal)) (Fin min_subnormal) (Fin 5) (Fin 1000) (Fin 1) (Fin 1))))
      ''Tratio'' = Some (JNum NaN)
   \<and> Number_toFixed 3 (fdiv (Fin (2 * min_subnormal)) (Fin min_subnormal)) = Fin 2"
proof -
  have "\<not> flt (bpr_base (Fin 57) (Fin 48) (Fin 1)) (Fin 0)"
    by (intro base_not_negative) simp_all
  then have "map_of (body (estimate pow_rn
      (request (Fin 57) (Fin 48) (Fin 5) (Fin 1000) (Fin 1) (Fin 1)))) ''Tratio'' =
      Some (JNum (Number_toFixed 3 (travel_time_ratio (Fin 57) (Fin 48))))"
    by (simp add: estimate_numbers [OF fields_request] computed_def)
  moreover have "Number_toFixed 3 (travel_time_ratio (Fin 57) (Fin 48)) =
      Fin (5345772757688779 / 2 ^ 52)"
    by (simp add: ratio_57_48 Number_toFixed_def toFixed_limit_def rnd_1187)
  moreover have "Number_toFixed 3 (fdiv (Fin 57) (Fin 48)) = Fin (5350276357316149 / 2 ^ 52)"
    by (simp add: rnd_19_16 Number_toFixed_def toFixed_limit_def rnd_1188)
  moreover have "\<not> flt (bpr_base (Fin (2 * min_subnormal)) (Fin min_subnormal) (Fin 1)) (Fin 0)"
    using min_subnormal_pos by (intro base_not_negative) simp_all
  then have "map_of (body (estimate pow_rn
      (request (Fin (2 * min_subnormal)) (Fin min_subnormal) (Fin 5) (Fin 1000) (Fin 1) (Fin 1))))
      ''Tratio'' = Some (JNum NaN)"
    using min_subnormal_pos
    by (simp add: estimate_numbers [OF fields_request] computed_def travel_time_ratio_def
        hours_underflow Number_toFixed_def toFixed_limit_def)
  moreover have "Number_toFixed 3 (fdiv (Fin (2 * min_subnormal)) (Fin min_subnormal)) = Fin 2"
    using min_subnormal_pos by (simp add: Number_toFixed_def toFixed_limit_def rnd_numeral)
  ultimately show ?thesis by (simp add: rnd_1187 rnd_1188)
qed

text \<open>
  C7, amended. For positive finite fields with \<open>T_min > Tff_min\<close> the returned \<open>Tratio\<close>
  is \<^verbatim>\<open>Number(x.toFixed(3))\<close> of the binary64 quotient \<open>x = (T_min/60) / (Tff_min/60)\<close>,
  and it is the same for every \<open>alpha\<close>, \<open>beta\<close>, \<open>qpc\<close> and \<open>L_km\<close> (and every
  \<^verbatim>\<open>Math.pow\<close>). When moreover \<open>2^-100 <= Tff_min\<close>, \<open>T_min <= 2^100\<close> and
  \<open>T_min / Tff_min <= 10^20\<close>, it is a finite number within
  \<open>0.0005 + (T_min / Tff_min) * 2^-50\<close> of \<open>T_min / Tff_min\<close>.
\<close>

theorem Tratio_value:
  assumes "fields b = [JNum (Fin t), JNum (Fin tf), JNum (Fin l), JNum (Fin q), JNum (Fin a),
                       JNum (Fin \<beta>)]"
    and "fields b' = [JNum (Fin t), JNum (Fin tf), JNum (Fin l'), JNum (Fin q'), JNum (Fin a'),
                       JNum (Fin \<beta>')]"
    and "0 < t" and "0 < tf" and "tf < t"
    and "0 < l" and "0 < q" and "0 < a" and "0 < \<beta>"
    and "0 < l'" and "0 < q'" and "0 < a'" and "0 < \<beta>'"
  shows "map_of (body (estimate approx b)) ''Tratio'' =
           Some (JNum (Number_toFixed 3 (fdiv (fdiv (Fin t) (Fin 60)) (fdiv (Fin tf) (Fin 60)))))
         \<and> map_of (body (estimate approx' b')) ''Tratio'' =
             map_of (body (estimate approx b)) ''Tratio''
         \<and> (1 / 2 ^ 100 \<le> tf \<and> t \<le> 2 ^ 100 \<and> t / tf \<le> 10 ^ 20 \<longrightarrow>
              (\<exists>r. map_of (body (estimate approx b)) ''Tratio'' = Some (JNum (Fin r))
                 \<and> \<bar>r - t / tf\<bar> \<le> 1 / 2000 + (t / tf) / 2 ^ 50))"
proof -
  have "\<not> flt (bpr_base (Fin t) (Fin tf) (Fin a)) (Fin 0)"
    and "\<not> flt (bpr_base (Fin t) (Fin tf) (Fin a')) (Fin 0)"
    using assms by (simp_all add: base_not_negative)
  then have v: "map_of (body (estimate approx b)) ''Tratio'' =
           Some (JNum (Number_toFixed 3 (travel_time_ratio (Fin t) (Fin tf))))"
    and v': "map_of (body (estimate approx' b')) ''Tratio'' =
           Some (JNum (Number_toFixed 3 (travel_time_ratio (Fin t) (Fin tf))))"
    using assms
    by (simp_all add: estimate_numbers [OF assms(1)] estimate_numbers [OF assms(2)] computed_def)
  have "\<exists>r. Number_toFixed 3 (travel_time_ratio (Fin t) (Fin tf)) = Fin r
           \<and> \<bar>r - t / tf\<bar> \<le> 1 / 2000 + (t / tf) / 2 ^ 50"
    if "1 / 2 ^ 100 \<le> tf" and "t \<le> 2 ^ 100" and "t / tf \<le> 10 ^ 20"
    using Tratio_close [OF that(1) assms(5) that(2,3)] by metis
  then show ?thesis
    unfolding v v' by (simp add: travel_time_ratio_def hours_def)
qed

theorem Tratio_value_witness:
  "map_of (body (estimate pow_rn (request (Fin 120) (Fin 60) (Fin 5) (Fin 1000) (Fin 1) (Fin 1))))
     ''Tratio'' = Some (JNum (Fin 2))
   \<and> map_of (body (estimate pow_rn (request (Fin 120) (Fin 60) (Fin 7) (Fin 1) (Fin 256) (Fin 4))))
     ''Tratio'' = Some (JNum (Fin 2))
   \<and> (1 / 2 ^ 100 :: real) \<le> 60 \<and> (120 :: real) \<le> 2 ^ 100 \<and> (120 / 60 :: real) \<le> 10 ^ 20
   \<and> \<bar>2 - 120 / 60 :: real\<bar> \<le> 1 / 2000 + (120 / 60) / 2 ^ 50"
  using Tratio_value [OF fields_request fields_request, of 120 60 5 1000 1 1 7 1 256 4 pow_rn pow_rn]
  by (simp add: eval_simps)

text \<open>
  C8. \<open>L_km\<close> is checked and then ignored: two bodies that pass the check and agree on
  the five other fields get the same response, whatever their \<open>L_km\<close>.
\<close>

theorem L_km_unused:
  assumes "fields b = [T, Tf, L, q, a, \<beta>]" and "fields b' = [T, Tf, L', q, a, \<beta>]"
    and "\<not> list_ex not_positive (fields b)" and "\<not> list_ex not_positive (fields b')"
  shows "estimate approx b = estimate approx b'"
proof -
  have nn: "b \<noteq> JUndefined" "b \<noteq> JNull" "b' \<noteq> JUndefined" "b' \<noteq> JNull"
    using assms fields_nullish [of b] fields_nullish [of b']
    by (auto simp: numeral_eq_Suc not_positive_def)
  show ?thesis
    using assms(3,4)
    unfolding estimate_fields [OF nn(1,2) assms(1)] estimate_fields [OF nn(3,4) assms(2)] assms(1,2)
    by simp
qed

theorem L_km_unused_witness:
  "estimate pow_rn (request (Fin 120) (Fin 60) (Fin 5) (Fin 1000) (Fin 1) (Fin 1)) =
   estimate pow_rn (request (Fin 120) (Fin 60) (Fin 7) (Fin 1000) (Fin 1) (Fin 1))"
  by (rule L_km_unused [OF fields_request fields_request])
     (simp_all add: fields_request not_positive_JNum)



text \<open>
  C10. A response with status 200 has one of two shapes. When \<open>T_min <= Tff_min\<close> its
  properties are exactly \<open>q_veh_per_h\<close>, \<open>N_veh\<close> and \<open>note\<close>; otherwise they are
  exactly \<open>q_veh_per_h\<close>, \<open>N_veh\<close> and \<open>Tratio\<close>, and \<open>N_veh\<close> is \<^verbatim>\<open>Math.round\<close>
  of the unrounded flow times the observed hours. The witness is a request where the
  two-decimal flow is 0 and \<open>N_veh\<close> is 1: rounding the flow first would give 0.
\<close>

theorem response_shapes:
  assumes "status (estimate approx b) = 200"
    and "fields b = [T, Tf, L, q, a, \<beta>]"
  shows "if fle (num_of T) (num_of Tf)
         then map fst (body (estimate approx b)) = [''q_veh_per_h'', ''N_veh'', ''note'']
         else map fst (body (estimate approx b)) = [''q_veh_per_h'', ''N_veh'', ''Tratio'']
            \<and> map_of (body (estimate approx b)) ''N_veh'' =
                Some (JNum (Math_round
                  (fmul (bpr_flow approx (num_of T) (num_of Tf) (num_of q) (num_of a) (num_of \<beta>))
                     (hours (num_of T)))))"
proof -
  have nn: "b \<noteq> JUndefined" "b \<noteq> JNull"
    using assms(1) status_nullish [of b approx] by auto
  show ?thesis
    using assms(1) unfolding estimate_fields [OF nn assms(2)]
    by (simp add: status_simps split: if_splits)
       (simp_all add: free_flow_def computed_def)
qed

theorem response_shapes_witness:
  "map fst (body (estimate pow_rn
       (request (Fin 12000) (Fin 6000) (Fin 5) (Fin 1) (Fin 256) (Fin 1)))) =
     [''q_veh_per_h'', ''N_veh'', ''Tratio'']
   \<and> map_of (body (estimate pow_rn
       (request (Fin 12000) (Fin 6000) (Fin 5) (Fin 1) (Fin 256) (Fin 1)))) ''N_veh'' =
     Some (JNum (Math_round (fmul (bpr_flow pow_rn (Fin 12000) (Fin 6000) (Fin 1) (Fin 256) (Fin 1))
                               (hours (Fin 12000)))))
   \<and> Math_round (fmul (bpr_flow pow_rn (Fin 12000) (Fin 6000) (Fin 1) (Fin 256) (Fin 1))
                               (hours (Fin 12000))) = Fin 1
   \<and> Math_round (fmul (Number_toFixed 2 (bpr_flow pow_rn (Fin 12000) (Fin 6000) (Fin 1) (Fin 256) (Fin 1)))
                               (hours (Fin 12000))) = Fin 0
   \<and> map fst (body (estimate pow_rn
       (request (Fin 6000) (Fin 6000) (Fin 5) (Fin 1) (Fin 256) (Fin 1)))) =
     [''q_veh_per_h'', ''N_veh'', ''note'']"
proof -
  have s: "status (estimate pow_rn
       (request (Fin 12000) (Fin 6000) (Fin 5) (Fin 1) (Fin 256) (Fin 1))) = 200"
    by (simp add: example_12000)
  have s': "status (estimate pow_rn
       (request (Fin 6000) (Fin 6000) (Fin 5) (Fin 1) (Fin 256) (Fin 1))) = 200"
    by (simp add: estimate_numbers [OF fields_request] status_simps)
  have "Math_round (fmul (bpr_flow pow_rn (Fin 12000) (Fin 6000) (Fin 1) (Fin 256) (Fin 1))
                               (hours (Fin 12000))) = Fin 1"
    and "Math_round (fmul (Number_toFixed 2 (bpr_flow pow_rn (Fin 12000) (Fin 6000) (Fin 1) (Fin 256) (Fin 1)))
                               (hours (Fin 12000))) = Fin 0"
    by (simp_all add: eval_simps rnd_256 rnd_200_256)
  with response_shapes [OF s fields_request] response_shapes [OF s' fields_request]
  show ?thesis by simp
qed

end
